theory Spec2Isabelle
  imports Main
begin

section \<open>Strings of the JavaScript runtime\<close>

text \<open>
  File names and paths are \<^typ>\<open>string\<close>: lists of 8-bit characters, read as code units
  below 256. Every literal the helpers compare against is ASCII, and \<open>slice\<close> only ever
  cuts ASCII characters off, so the model is exact for such names; names holding code
  units above 255 are outside of it.
\<close>

definition startsWith :: "string \<Rightarrow> string \<Rightarrow> bool" where
  "startsWith s p = (take (length p) s = p)"

definition endsWith :: "string \<Rightarrow> string \<Rightarrow> bool" where
  "endsWith s p = (length p \<le> length s \<and> drop (length s - length p) s = p)"

text \<open>\<open>s.slice(0, -k)\<close>: the string without its last \<open>k\<close> characters, empty when it is
  shorter than \<open>k\<close>.\<close>

definition sliceEnd :: "string \<Rightarrow> nat \<Rightarrow> string" where
  "sliceEnd s k = take (length s - k) s"

text \<open>\<open>toLowerCase\<close> on code units below 256: \<open>A\<close>..\<open>Z\<close> and the Latin-1 capitals
  (192..222 without the multiplication sign 215) move up by 32.\<close>

definition lowerChar :: "char \<Rightarrow> char" where
  "lowerChar c =
     (let n = (of_char c :: nat)
      in if (65 \<le> n \<and> n \<le> 90) \<or> (192 \<le> n \<and> n \<le> 222 \<and> n \<noteq> 215)
         then char_of (n + 32) else c)"

definition toLowerCase :: "string \<Rightarrow> string" where
  "toLowerCase s = map lowerChar s"

text \<open>The character classes of the regular expressions: \<open>\d\<close> is \<open>0\<close>..\<open>9\<close>; the dot
  matches everything but a line terminator (line feed and carriage return, below 256).\<close>

definition isDigit :: "char \<Rightarrow> bool" where
  "isDigit c = (let n = (of_char c :: nat) in 48 \<le> n \<and> n \<le> 57)"

definition isLineTerminator :: "char \<Rightarrow> bool" where
  "isLineTerminator c = (let n = (of_char c :: nat) in n = 10 \<or> n = 13)"

text \<open>
  \<open>/\(\d+\)$/\<close>: the index at which the match starts. The digits hold no parenthesis, so
  the opening one is the first character left of the closing one that is not a digit;
  the match, when there is one, is unique.
\<close>

definition counterIndex :: "string \<Rightarrow> nat option" where
  "counterIndex s =
     (case rev s of
        [] \<Rightarrow> None
      | c # r \<Rightarrow>
          if c = CHR '')'' then
            (case dropWhile isDigit r of
               [] \<Rightarrow> None
             | b # _ \<Rightarrow>
                 if b = CHR ''('' \<and> 0 < length (takeWhile isDigit r)
                 then Some (length s - (length (takeWhile isDigit r) + 2))
                 else None)
          else None)"

text \<open>\<open>/\(\d+\)$/.test(s)\<close>\<close>

definition hasCounter :: "string \<Rightarrow> bool" where
  "hasCounter s = (case counterIndex s of None \<Rightarrow> False | Some _ \<Rightarrow> True)"

text \<open>\<open>/\(\d+\)\.json$/.test(file)\<close>\<close>

definition hasCounterSuffix :: "string \<Rightarrow> bool" where
  "hasCounterSuffix file = (endsWith file ''.json'' \<and> hasCounter (sliceEnd file 5))"

text \<open>
  \<open>s.match(/(?<name>.*)(?<counter>\(\d+\))$/)\<close>, as the pair of its two groups. The
  expression is not anchored on the left and its dot stops at a line terminator, so the
  leftmost match starts right after the last line terminator in front of the counter.
\<close>

definition afterLastLineTerminator :: "string \<Rightarrow> string" where
  "afterLastLineTerminator s = rev (takeWhile (\<lambda>c. \<not> isLineTerminator c) (rev s))"

definition nameWithCounterMatch :: "string \<Rightarrow> (string \<times> string) option" where
  "nameWithCounterMatch s =
     (case counterIndex s of
        None \<Rightarrow> None
      | Some k \<Rightarrow> Some (afterLastLineTerminator (take k s), drop k s))"

text \<open>
  \<open>s.match(/^(.+?)\(\d+\)$/)\<close>, as its group 1: anchored on both sides, so the text in
  front of the counter is not empty and holds no line terminator.
\<close>

definition baseNameMatch :: "string \<Rightarrow> string option" where
  "baseNameMatch s =
     (case counterIndex s of
        None \<Rightarrow> None
      | Some k \<Rightarrow>
          if 0 < k \<and> list_all (\<lambda>c. \<not> isLineTerminator c) (take k s)
          then Some (take k s) else None)"

text \<open>
  \<open>s.replace(/[-]edited$/i, '')\<close>. Without the \<open>u\<close> flag, ignoring case compares the
  upper-case forms of single code units and never maps a code unit above 127 to one
  below, so only the ASCII letters of either case match the letters of the pattern.
\<close>

definition asciiLower :: "char \<Rightarrow> char" where
  "asciiLower c =
     (let n = (of_char c :: nat) in if 65 \<le> n \<and> n \<le> 90 then char_of (n + 32) else c)"

definition endsWithEdited :: "string \<Rightarrow> bool" where
  "endsWithEdited s =
     (7 \<le> length s \<and> map asciiLower (drop (length s - 7) s) = ''-edited'')"

definition stripEdited :: "string \<Rightarrow> string" where
  "stripEdited s = (if endsWithEdited s then sliceEnd s 7 else s)"

section \<open>The platform: Node's path and fs modules\<close>

text \<open>
  The resolver reaches the outside through four functions of \<open>path\<close> and two of \<open>fs\<close>.
  They are parameters of the model. \<open>existsSync\<close> answers without raising;
  \<open>readdirSync\<close> either lists the entries of a directory in the order of the file system
  or raises. The file system does not change while one path is resolved.
\<close>

datatype error = FsError | ToolError | RangeError

record node =
  dirname :: "string \<Rightarrow> string"
  extname :: "string \<Rightarrow> string"
  basename :: "string \<Rightarrow> string \<Rightarrow> string"
  resolve :: "string \<Rightarrow> string \<Rightarrow> string"
  existsSync :: "string \<Rightarrow> bool"
  readdirSync :: "string \<Rightarrow> error + string list"

text \<open>
  A statement of the resolver either returns a path (\<open>Inr (Some p)\<close>), falls through to
  the next statement (\<open>Inr None\<close>) or raises (\<open>Inl e\<close>).
\<close>

type_synonym outcome = "error + string option"

definition andThen :: "outcome \<Rightarrow> outcome \<Rightarrow> outcome" where
  "andThen s t = (case s of Inl e \<Rightarrow> Inl e | Inr (Some p) \<Rightarrow> Inr (Some p) | Inr None \<Rightarrow> t)"

text \<open>\<open>try { s } catch (error) { }\<close>: the handler is empty, the error is dropped.\<close>

definition tryCatch :: "outcome \<Rightarrow> outcome" where
  "tryCatch s = (case s of Inl e \<Rightarrow> Inr None | Inr r \<Rightarrow> Inr r)"

section \<open>getCompanionJsonPathForMediaFile\<close>

subsection \<open>The list of potential names (lines 19 to 52)\<close>

definition directNames :: "string \<Rightarrow> string \<Rightarrow> string list" where
  "directNames stem ext =
     [stem @ ''.json'',
      stem @ ext @ ''.json'',
      stem @ ext @ ''.supplemental-metadata.json'']"

definition counterNames :: "string \<Rightarrow> string \<Rightarrow> string list" where
  "counterNames stem ext =
     (case nameWithCounterMatch stem of
        None \<Rightarrow> []
      | Some (name, counter) \<Rightarrow>
          [name @ ext @ counter @ ''.json'',
           name @ ext @ ''.supplemental-metadata'' @ counter @ ''.json''])"

definition trailingNames :: "string \<Rightarrow> string \<Rightarrow> string list" where
  "trailingNames stem ext =
     (let endsWithExtraDash = endsWith stem ''_n-'';
          endsWithExtraNChar = endsWith stem ''_n'';
          endsWithExtraUnderscore = endsWith stem ''_''
      in if endsWithExtraDash \<or> endsWithExtraNChar \<or> endsWithExtraUnderscore then
           (let baseNameWithoutExtraChar = sliceEnd stem 1
            in [baseNameWithoutExtraChar @ ''.json'',
                baseNameWithoutExtraChar @ ext @ ''.json'',
                baseNameWithoutExtraChar @ ext @ ''.supplemental-metadata.json''])
         else [])"

definition potentialJsonFileNames :: "string \<Rightarrow> string \<Rightarrow> string list" where
  "potentialJsonFileNames stem ext =
     directNames stem ext @ counterNames stem ext @ trailingNames stem ext"

subsection \<open>The loops\<close>

text \<open>Lines 56 to 61, and again 161 to 166 and 190 to 195: return the first name whose
  resolved path exists.\<close>

fun returnFirstExisting :: "node \<Rightarrow> string \<Rightarrow> string list \<Rightarrow> string option" where
  "returnFirstExisting env dir [] = None"
| "returnFirstExisting env dir (n # ns) =
     (let jsonFilePath = resolve env dir n
      in if existsSync env jsonFilePath then Some jsonFilePath
         else returnFirstExisting env dir ns)"

text \<open>Lines 68 to 76.\<close>

fun supplementalLoop :: "node \<Rightarrow> string \<Rightarrow> string \<Rightarrow> string list \<Rightarrow> string option" where
  "supplementalLoop env dir stem [] = None"
| "supplementalLoop env dir stem (file # files) =
     (if startsWith file stem \<and> endsWith file ''.supplemental-metadata.json'' then
        (let candidatePath = resolve env dir file
         in if existsSync env candidatePath then Some candidatePath
            else supplementalLoop env dir stem files)
      else supplementalLoop env dir stem files)"

text \<open>Lines 87 to 102.\<close>

fun prefixJsonLoop :: "node \<Rightarrow> string \<Rightarrow> string \<Rightarrow> string list \<Rightarrow> string option" where
  "prefixJsonLoop env dir stem [] = None"
| "prefixJsonLoop env dir stem (file # files) =
     (if startsWith file stem \<and> endsWith file ''.json'' then
        (let mediaHasCounter = hasCounter stem
         in if hasCounterSuffix file = mediaHasCounter then
              (let candidatePath = resolve env dir file
               in if existsSync env candidatePath then Some candidatePath
                  else prefixJsonLoop env dir stem files)
            else prefixJsonLoop env dir stem files)
      else prefixJsonLoop env dir stem files)"

text \<open>Lines 113 to 124.\<close>

fun reverseTruncationLoop :: "node \<Rightarrow> string \<Rightarrow> string \<Rightarrow> string list \<Rightarrow> string option" where
  "reverseTruncationLoop env dir stem [] = None"
| "reverseTruncationLoop env dir stem (file # files) =
     (if endsWith file ''.json'' then
        (let jsonFileNameWithoutExtension = sliceEnd file 5
         in if startsWith stem jsonFileNameWithoutExtension then
              (let candidatePath = resolve env dir file
               in if existsSync env candidatePath then Some candidatePath
                  else reverseTruncationLoop env dir stem files)
            else reverseTruncationLoop env dir stem files)
      else reverseTruncationLoop env dir stem files)"

text \<open>The bodies of the three \<open>try\<close> blocks: the listing first, which may raise, then the
  loop over it.\<close>

definition supplementalScan :: "node \<Rightarrow> string \<Rightarrow> string \<Rightarrow> outcome" where
  "supplementalScan env dir stem =
     (case readdirSync env dir of
        Inl e \<Rightarrow> Inl e
      | Inr filesInDirectory \<Rightarrow> Inr (supplementalLoop env dir stem filesInDirectory))"

definition prefixJsonScan :: "node \<Rightarrow> string \<Rightarrow> string \<Rightarrow> outcome" where
  "prefixJsonScan env dir stem =
     (case readdirSync env dir of
        Inl e \<Rightarrow> Inl e
      | Inr filesInDirectory \<Rightarrow> Inr (prefixJsonLoop env dir stem filesInDirectory))"

definition reverseTruncationScan :: "node \<Rightarrow> string \<Rightarrow> string \<Rightarrow> outcome" where
  "reverseTruncationScan env dir stem =
     (case readdirSync env dir of
        Inl e \<Rightarrow> Inl e
      | Inr filesInDirectory \<Rightarrow> Inr (reverseTruncationLoop env dir stem filesInDirectory))"

subsection \<open>The video files (lines 132 to 199)\<close>

definition videoExtensions :: "string list" where
  "videoExtensions =
     [''.mp4'', ''.mov'', ''.avi'', ''.mkv'', ''.webm'', ''.flv'', ''.wmv'', ''.m4v'']"

definition imageExtensions :: "string list" where
  "imageExtensions = [''.jpg'', ''.jpeg'', ''.png'', ''.gif'', ''.bmp'', ''.heic'', ''.webp'']"

text \<open>Case 1 of the loop body, lines 138 to 167; \<open>None\<close> is falling through to case 2.\<close>

definition sameCounterCase :: "node \<Rightarrow> string \<Rightarrow> string \<Rightarrow> string \<Rightarrow> string option" where
  "sameCounterCase env dir stem imgExt =
     (let companionImagePathSameCounter = resolve env dir (stem @ imgExt)
      in if existsSync env companionImagePathSameCounter then
           (case (case counterIndex stem of
                    None \<Rightarrow> None
                  | Some k \<Rightarrow>
                      (let jsonWithCounterPath =
                             resolve env dir
                               (take k stem @ imgExt @ ''.supplemental-metadata'' @ drop k stem
                                  @ ''.json'')
                       in if existsSync env jsonWithCounterPath then Some jsonWithCounterPath
                          else None))
            of Some p \<Rightarrow> Some p
             | None \<Rightarrow>
                 returnFirstExisting env dir
                   [stem @ imgExt @ ''.json'', stem @ imgExt @ ''.supplemental-metadata.json''])
         else None)"

text \<open>Case 2 of the loop body, lines 171 to 197.\<close>

definition baseImageCase :: "node \<Rightarrow> string \<Rightarrow> string \<Rightarrow> string \<Rightarrow> string option" where
  "baseImageCase env dir stem imgExt =
     (case baseNameMatch stem of
        None \<Rightarrow> None
      | Some baseNameWithoutCounter \<Rightarrow>
          (let companionImagePathBase = resolve env dir (baseNameWithoutCounter @ imgExt)
           in if existsSync env companionImagePathBase then
                (let jsonBasePath =
                       resolve env dir
                         (baseNameWithoutCounter @ imgExt @ ''.supplemental-metadata.json'')
                 in if existsSync env jsonBasePath then Some jsonBasePath
                    else returnFirstExisting env dir [baseNameWithoutCounter @ imgExt @ ''.json''])
              else None))"

fun imageLoop :: "node \<Rightarrow> string \<Rightarrow> string \<Rightarrow> string list \<Rightarrow> string option" where
  "imageLoop env dir stem [] = None"
| "imageLoop env dir stem (imgExt # rest) =
     (case sameCounterCase env dir stem imgExt of
        Some p \<Rightarrow> Some p
      | None \<Rightarrow>
          (case baseImageCase env dir stem imgExt of
             Some p \<Rightarrow> Some p
           | None \<Rightarrow> imageLoop env dir stem rest))"

definition crossMediaFallback :: "node \<Rightarrow> string \<Rightarrow> string \<Rightarrow> string \<Rightarrow> string option" where
  "crossMediaFallback env dir ext stem =
     (if toLowerCase ext \<in> set videoExtensions
      then imageLoop env dir stem imageExtensions else None)"

subsection \<open>The function\<close>

text \<open>Lines 19 to 203, from the directory, the extension and the stem of lines 6 to 13.\<close>

definition resolveFrom :: "node \<Rightarrow> string \<Rightarrow> string \<Rightarrow> string \<Rightarrow> outcome" where
  "resolveFrom env directoryPath mediaFileExtension mediaFileNameWithoutExtension =
     andThen (Inr (returnFirstExisting env directoryPath
                (potentialJsonFileNames mediaFileNameWithoutExtension mediaFileExtension)))
    (andThen (tryCatch (supplementalScan env directoryPath mediaFileNameWithoutExtension))
    (andThen (tryCatch (prefixJsonScan env directoryPath mediaFileNameWithoutExtension))
    (andThen (tryCatch (reverseTruncationScan env directoryPath mediaFileNameWithoutExtension))
    (andThen (Inr (crossMediaFallback env directoryPath mediaFileExtension
                mediaFileNameWithoutExtension))
             (Inr None)))))"

definition getCompanionJsonPathForMediaFile :: "node \<Rightarrow> string \<Rightarrow> outcome" where
  "getCompanionJsonPathForMediaFile env mediaFilePath =
     (let directoryPath = dirname env mediaFilePath;
          mediaFileExtension = extname env mediaFilePath;
          mediaFileNameWithoutExtension = basename env mediaFilePath mediaFileExtension
      in resolveFrom env directoryPath mediaFileExtension
           (stripEdited mediaFileNameWithoutExtension))"

section \<open>The resolver as the specification words it\<close>

text \<open>
  The candidates of the six priorities, each an ordered list of names, written from the
  specification alone: of the model of the code only the string primitives and the two
  tables of extensions are used. A listing that cannot be read has no entries.
\<close>

definition listing :: "node \<Rightarrow> string \<Rightarrow> string list" where
  "listing env dir = (case readdirSync env dir of Inl e \<Rightarrow> [] | Inr entries \<Rightarrow> entries)"

text \<open>
  The counter suffix \<open>(<digits>)\<close> at the end of a stem, as the pair of the stem without
  the counter and the counter; none when the stem does not end with one.
\<close>

definition stemCounter :: "string \<Rightarrow> (string \<times> string) option" where
  "stemCounter stem =
     (let digits = rev (takeWhile isDigit (rev (butlast stem)));
          stemWithoutCounter = take (length stem - (length digits + 2)) stem
      in if 0 < length digits \<and> stem = stemWithoutCounter @ ''('' @ digits @ '')''
         then Some (stemWithoutCounter, ''('' @ digits @ '')'')
         else None)"

definition carriesCounter :: "string \<Rightarrow> bool" where
  "carriesCounter s = (case stemCounter s of None \<Rightarrow> False | Some _ \<Rightarrow> True)"

definition directCandidates :: "string \<Rightarrow> string \<Rightarrow> string list" where
  "directCandidates base ext =
     [base @ ''.json'', base @ ext @ ''.json'', base @ ext @ ''.supplemental-metadata.json'']"

text \<open>Priority 1: the direct names and, for a stem with a counter, the two names with
  the extension in front of the counter.\<close>

definition priority1 :: "string \<Rightarrow> string \<Rightarrow> string list" where
  "priority1 stem ext =
     directCandidates stem ext
     @ (case stemCounter stem of
          None \<Rightarrow> []
        | Some (stemWithoutCounter, counter) \<Rightarrow>
            [stemWithoutCounter @ ext @ counter @ ''.json'',
             stemWithoutCounter @ ext @ ''.supplemental-metadata'' @ counter @ ''.json''])"

text \<open>Priority 2: for a stem that ends in \<open>_n-\<close>, \<open>_n\<close> or \<open>_\<close>, the direct names of
  the stem without its last character.\<close>

definition priority2 :: "string \<Rightarrow> string \<Rightarrow> string list" where
  "priority2 stem ext =
     (if endsWith stem ''_n-'' \<or> endsWith stem ''_n'' \<or> endsWith stem ''_''
      then directCandidates (butlast stem) ext else [])"

text \<open>Priorities 3 to 5: the entries of the listing, in its order, that the scan accepts.\<close>

definition priority3 :: "node \<Rightarrow> string \<Rightarrow> string \<Rightarrow> string list" where
  "priority3 env dir stem =
     filter (\<lambda>entry. startsWith entry stem \<and> endsWith entry ''.supplemental-metadata.json'')
       (listing env dir)"

definition priority4 :: "node \<Rightarrow> string \<Rightarrow> string \<Rightarrow> string list" where
  "priority4 env dir stem =
     filter (\<lambda>entry. startsWith entry stem \<and> endsWith entry ''.json''
                \<and> carriesCounter (take (length entry - 5) entry) = carriesCounter stem)
       (listing env dir)"

definition priority5 :: "node \<Rightarrow> string \<Rightarrow> string \<Rightarrow> string list" where
  "priority5 env dir stem =
     filter (\<lambda>entry. endsWith entry ''.json'' \<and> startsWith stem (take (length entry - 5) entry))
       (listing env dir)"

text \<open>Priority 6, for a video: per image extension, 6a for the image of the same name
  and 6b for the image of the stem without its counter.\<close>

definition candidates6a :: "node \<Rightarrow> string \<Rightarrow> string \<Rightarrow> string \<Rightarrow> string list" where
  "candidates6a env dir stem imgExt =
     (if existsSync env (resolve env dir (stem @ imgExt)) then
        (case stemCounter stem of
           None \<Rightarrow> []
         | Some (stemWithoutCounter, counter) \<Rightarrow>
             [stemWithoutCounter @ imgExt @ ''.supplemental-metadata'' @ counter @ ''.json''])
        @ [stem @ imgExt @ ''.json'', stem @ imgExt @ ''.supplemental-metadata.json'']
      else [])"

definition candidates6b :: "node \<Rightarrow> string \<Rightarrow> string \<Rightarrow> string \<Rightarrow> string list" where
  "candidates6b env dir stem imgExt =
     (case stemCounter stem of
        None \<Rightarrow> []
      | Some (stemWithoutCounter, counter) \<Rightarrow>
          if existsSync env (resolve env dir (stemWithoutCounter @ imgExt))
          then [stemWithoutCounter @ imgExt @ ''.supplemental-metadata.json'',
                stemWithoutCounter @ imgExt @ ''.json'']
          else [])"

definition priority6 :: "node \<Rightarrow> string \<Rightarrow> string \<Rightarrow> string \<Rightarrow> string list" where
  "priority6 env dir ext stem =
     (if toLowerCase ext \<in> set videoExtensions
      then concat (map (\<lambda>imgExt. candidates6a env dir stem imgExt @ candidates6b env dir stem imgExt)
                     imageExtensions)
      else [])"

definition candidateNames :: "node \<Rightarrow> string \<Rightarrow> string \<Rightarrow> string \<Rightarrow> string list" where
  "candidateNames env dir ext stem =
     priority1 stem ext @ priority2 stem ext @ priority3 env dir stem @ priority4 env dir stem
       @ priority5 env dir stem @ priority6 env dir ext stem"

definition firstExistingCandidate :: "node \<Rightarrow> string \<Rightarrow> string list \<Rightarrow> string option" where
  "firstExistingCandidate env dir names =
     List.find (existsSync env) (map (resolve env dir) names)"

section \<open>updateExifMetadata and doesExifDateMatchPhotoTakenTime\<close>

text \<open>
  The two helpers act on the world through exiftool, \<open>fs.promises\<close> and two helpers of the
  repository whose files are not at hand (\<open>doesFileSupportExif\<close>,
  \<open>readPhotoTakenTimeFromGoogleJson\<close>); all are parameters. An action takes the world and
  gives the world it leaves, with a value or the error it raised: a rejected promise is
  \<open>Inl\<close>, and each \<open>await\<close> runs its action to the end before the next starts.
  \<open>toISOString\<close> is \<open>new Date(x).toISOString()\<close>, which raises a RangeError on a date that
  is not valid.
\<close>

type_synonym ('a, 'w) action = "'w \<Rightarrow> (error + 'a) \<times> 'w"

datatype tag = DateTimeOriginal | CreateDate | MediaCreateDate

record MediaFileInfo =
  outputFilePath :: string
  mediaFileName :: string
  jsonFileExists :: bool
  jsonFileName :: "string option"
  jsonFilePath :: "string option"

record 'w tools =
  doesFileSupportExif :: "string \<Rightarrow> bool"
  toISOString :: "string \<Rightarrow> string option"
  exiftoolWrite :: "string \<Rightarrow> (tag \<times> string) list \<Rightarrow> (unit, 'w) action"
  exiftoolRead :: "string \<Rightarrow> (string option, 'w) action"
  unlink :: "string \<Rightarrow> (unit, 'w) action"
  copyFile :: "string \<Rightarrow> string \<Rightarrow> (unit, 'w) action"
  readPhotoTakenTimeFromGoogleJson :: "MediaFileInfo \<Rightarrow> (string option, 'w) action"

text \<open>\<open>s.replace(c, r)\<close> with a string pattern of one character: the first occurrence only.\<close>

fun replaceFirst :: "char \<Rightarrow> string \<Rightarrow> string \<Rightarrow> string" where
  "replaceFirst c r [] = []"
| "replaceFirst c r (x # xs) = (if x = c then r @ xs else x # replaceFirst c r xs)"

text \<open>Lines 23 to 38: the tags to write.\<close>

definition metadataTags :: "string \<Rightarrow> string \<Rightarrow> (tag \<times> string) list" where
  "metadataTags extension isoString =
     (let utcFormattedDate =
            replaceFirst (CHR ''Z'') ''+00:00'' (replaceFirst (CHR ''T'') '' '' isoString)
      in if extension \<in> set [''.mp4'', ''.mov'', ''.avi'']
         then [(DateTimeOriginal, utcFormattedDate), (CreateDate, utcFormattedDate),
               (MediaCreateDate, utcFormattedDate)]
         else [(DateTimeOriginal, utcFormattedDate)])"

text \<open>Lines 16 to 42: the body of the \<open>try\<close> block.\<close>

definition writeAndCleanUp ::
  "node \<Rightarrow> 'w tools \<Rightarrow> MediaFileInfo \<Rightarrow> string \<Rightarrow> (unit, 'w) action" where
  "writeAndCleanUp env io fileInfo timeTaken w =
     (let extension = toLowerCase (extname env (outputFilePath fileInfo))
      in case toISOString io timeTaken of
           None \<Rightarrow> (Inl RangeError, w)
         | Some isoString \<Rightarrow>
             (case exiftoolWrite io (outputFilePath fileInfo)
                     (metadataTags extension isoString) w of
                (Inl e, w1) \<Rightarrow> (Inl e, w1)
              | (Inr _, w1) \<Rightarrow> unlink io (outputFilePath fileInfo @ ''_original'') w1))"

text \<open>A value of type \<open>string | null\<close> in a condition: true when it is a string that is
  not empty.\<close>

definition truthy :: "string option \<Rightarrow> bool" where
  "truthy v = (case v of None \<Rightarrow> False | Some s \<Rightarrow> 0 < length s)"

text \<open>Lines 46 to 48.\<close>

definition copyCompanion ::
  "node \<Rightarrow> 'w tools \<Rightarrow> MediaFileInfo \<Rightarrow> string \<Rightarrow> (unit, 'w) action" where
  "copyCompanion env io fileInfo errorDir w =
     (if jsonFileExists fileInfo \<and> truthy (jsonFileName fileInfo)
          \<and> truthy (jsonFilePath fileInfo) then
        (case (jsonFilePath fileInfo, jsonFileName fileInfo) of
           (Some path, Some name) \<Rightarrow> copyFile io path (resolve env errorDir name) w
         | _ \<Rightarrow> (Inr (), w))
      else (Inr (), w))"

text \<open>Lines 45 to 48: the handler.\<close>

definition copyToErrorDir ::
  "node \<Rightarrow> 'w tools \<Rightarrow> MediaFileInfo \<Rightarrow> string \<Rightarrow> (unit, 'w) action" where
  "copyToErrorDir env io fileInfo errorDir w =
     (case copyFile io (outputFilePath fileInfo)
             (resolve env errorDir (mediaFileName fileInfo)) w of
        (Inl e, w1) \<Rightarrow> (Inl e, w1)
      | (Inr _, w1) \<Rightarrow> copyCompanion env io fileInfo errorDir w1)"

definition updateExifMetadata ::
  "node \<Rightarrow> 'w tools \<Rightarrow> MediaFileInfo \<Rightarrow> string \<Rightarrow> string \<Rightarrow> (unit, 'w) action" where
  "updateExifMetadata env io fileInfo timeTaken errorDir w =
     (if \<not> doesFileSupportExif io (outputFilePath fileInfo) then (Inr (), w)
      else
        (case writeAndCleanUp env io fileInfo timeTaken w of
           (Inl error, w1) \<Rightarrow> copyToErrorDir env io fileInfo errorDir w1
         | (Inr _, w1) \<Rightarrow> (Inr (), w1)))"

text \<open>The body of the \<open>try\<close> block of the verifier.\<close>

definition compareExifDate ::
  "'w tools \<Rightarrow> MediaFileInfo \<Rightarrow> string \<Rightarrow> (bool, 'w) action" where
  "compareExifDate io mediaFile photoTakenTime w =
     (case exiftoolRead io (outputFilePath mediaFile) w of
        (Inl e, w1) \<Rightarrow> (Inl e, w1)
      | (Inr None, w1) \<Rightarrow> (Inr False, w1)
      | (Inr (Some exifDate), w1) \<Rightarrow>
          (case toISOString io exifDate of
             None \<Rightarrow> (Inl RangeError, w1)
           | Some exifDateIso \<Rightarrow> (Inr (exifDateIso = photoTakenTime), w1)))"

definition doesExifDateMatchPhotoTakenTime ::
  "'w tools \<Rightarrow> MediaFileInfo \<Rightarrow> (bool, 'w) action" where
  "doesExifDateMatchPhotoTakenTime io mediaFile w =
     (if \<not> doesFileSupportExif io (outputFilePath mediaFile) then (Inr True, w)
      else
        (case readPhotoTakenTimeFromGoogleJson io mediaFile w of
           (Inl e, w1) \<Rightarrow> (Inl e, w1)
         | (Inr None, w1) \<Rightarrow> (Inr True, w1)
         | (Inr (Some photoTakenTime), w1) \<Rightarrow>
             (case compareExifDate io mediaFile photoTakenTime w1 of
                (Inl error, w2) \<Rightarrow> (Inr True, w2)
              | (Inr b, w2) \<Rightarrow> (Inr b, w2))))"

section \<open>A POSIX instance of the platform\<close>

text \<open>
  For concrete runs: a file system with one directory, absolute and in normal form, that
  holds the given entries in the given order and may or may not be listed. The path functions
  follow Node's POSIX implementation on a path with one trailing component; \<open>resolve\<close> is
  only ever given that directory and the plain name of an entry, which it joins.
\<close>

definition lastComponent :: "string \<Rightarrow> string" where
  "lastComponent p =
     rev (takeWhile (\<lambda>c. c \<noteq> CHR ''/'') (dropWhile (\<lambda>c. c = CHR ''/'') (rev p)))"

definition posixExtname :: "string \<Rightarrow> string" where
  "posixExtname p =
     (let c = lastComponent p;
          e = rev (takeWhile (\<lambda>x. x \<noteq> CHR ''.'') (rev c))
      in if length e = length c then []
         else if length e + 1 = length c then []
         else if c = ''..'' then []
         else CHR ''.'' # e)"

definition posixBasename :: "string \<Rightarrow> string \<Rightarrow> string" where
  "posixBasename p ext =
     (let c = lastComponent p
      in if 0 < length ext \<and> length ext \<le> length p then
           (if ext = p then []
            else if endsWith c ext \<and> length ext < length c then sliceEnd c (length ext)
            else c)
         else c)"

definition posixDirname :: "string \<Rightarrow> string" where
  "posixDirname p =
     (case p of
        [] \<Rightarrow> ''.''
      | c # cs \<Rightarrow>
          (let r = dropWhile (\<lambda>x. x \<noteq> CHR ''/'') (dropWhile (\<lambda>x. x = CHR ''/'') (rev cs))
           in if r = [] then (if c = CHR ''/'' then ''/'' else ''.'')
              else if c = CHR ''/'' \<and> length r = 1 then ''//''
              else take (length r) p))"

definition posixResolve :: "string \<Rightarrow> string \<Rightarrow> string" where
  "posixResolve dir name = (if dir = ''/'' then dir @ name else dir @ ''/'' @ name)"

definition posixNode :: "string \<Rightarrow> bool \<Rightarrow> string list \<Rightarrow> node" where
  "posixNode d listable entries =
     \<lparr> dirname = posixDirname,
       extname = posixExtname,
       basename = posixBasename,
       resolve = posixResolve,
       existsSync = (\<lambda>p. p \<in> set (map (posixResolve d) entries)),
       readdirSync = (\<lambda>q. if q = d \<and> listable then Inr entries else Inl FsError) \<rparr>"

text \<open>
  Tools that keep a log: the world is the list of the calls that went through. Each of
  the four flags says whether one kind of call succeeds; there is one date the clock
  knows, and the companion file and the embedded tag both hold it.
\<close>

datatype event =
    Wrote string "(tag \<times> string) list"
  | Unlinked string
  | Copied string string

definition loggingTools :: "bool \<Rightarrow> bool \<Rightarrow> bool \<Rightarrow> bool \<Rightarrow> bool \<Rightarrow> (event list) tools" where
  "loggingTools supported writeOk unlinkOk copyOk readOk =
     \<lparr> doesFileSupportExif = (\<lambda>p. supported),
       toISOString = (\<lambda>x. if x = ''2020-01-02T03:04:05.000Z'' then Some x else None),
       exiftoolWrite =
         (\<lambda>p tags w. if writeOk then (Inr (), w @ [Wrote p tags]) else (Inl ToolError, w)),
       exiftoolRead =
         (\<lambda>p w. if readOk then (Inr (Some ''2020-01-02T03:04:05.000Z''), w)
                else (Inl ToolError, w)),
       unlink = (\<lambda>p w. if unlinkOk then (Inr (), w @ [Unlinked p]) else (Inl FsError, w)),
       copyFile = (\<lambda>a b w. if copyOk then (Inr (), w @ [Copied a b]) else (Inl FsError, w)),
       readPhotoTakenTimeFromGoogleJson = (\<lambda>f w. (Inr (Some ''2020-01-02T03:04:05.000Z''), w)) \<rparr>"

definition snowInfo :: MediaFileInfo where
  "snowInfo =
     \<lparr> outputFilePath = ''/out/SNOW.mp4'',
       mediaFileName = ''SNOW.mp4'',
       jsonFileExists = True,
       jsonFileName = Some ''SNOW.mp4.json'',
       jsonFilePath = Some ''/in/SNOW.mp4.json'' \<rparr>"

section \<open>The counter suffix\<close>

lemma not_isDigit_paren: "\<not> isDigit (CHR ''('')"
  by (simp add: isDigit_def)

lemma counterIndex_counter:
  assumes "ds \<noteq> []" and "list_all isDigit ds"
  shows "counterIndex (base @ ''('' @ ds @ '')'') = Some (length base)"
proof -
  have r: "rev (base @ ''('' @ ds @ '')'') = CHR '')'' # (rev ds @ CHR ''('' # rev base)"
    by simp
  have all: "\<forall>x\<in>set (rev ds). isDigit x"
    using assms(2) by (simp add: list_all_iff)
  have "takeWhile isDigit (rev ds @ CHR ''('' # rev base)
          = rev ds @ takeWhile isDigit (CHR ''('' # rev base)"
    by (rule takeWhile_append2) (use all in blast)
  then have tw: "takeWhile isDigit (rev ds @ CHR ''('' # rev base) = rev ds"
    by (simp add: not_isDigit_paren)
  have "dropWhile isDigit (rev ds @ CHR ''('' # rev base)
          = dropWhile isDigit (CHR ''('' # rev base)"
    by (rule dropWhile_append2) (use all in blast)
  then have dw: "dropWhile isDigit (rev ds @ CHR ''('' # rev base) = CHR ''('' # rev base"
    by (simp add: not_isDigit_paren)
  show ?thesis
    unfolding counterIndex_def r using assms(1) by (simp add: tw dw)
qed

lemma counterIndex_SomeD:
  assumes "counterIndex s = Some k"
  shows "\<exists>base ds. s = base @ ''('' @ ds @ '')'' \<and> ds \<noteq> [] \<and> list_all isDigit ds
            \<and> k = length base"
proof -
  from assms obtain r where r: "rev s = CHR '')'' # r"
    by (auto simp: counterIndex_def split: list.splits if_splits)
  from assms r obtain r' where dw: "dropWhile isDigit r = CHR ''('' # r'"
    and ne: "takeWhile isDigit r \<noteq> []"
    and k: "k = length s - (length (takeWhile isDigit r) + 2)"
    by (auto simp: counterIndex_def split: list.splits if_splits)
  let ?ds = "rev (takeWhile isDigit r)"
  have "r = takeWhile isDigit r @ CHR ''('' # r'"
    using takeWhile_dropWhile_id [of isDigit r] dw by simp
  then have "rev r = rev r' @ ''('' @ ?ds"
    by (metis append_Cons append_Nil append_assoc rev.simps(2) rev_append)
  moreover have "s = rev r @ '')''"
    using r by (metis rev.simps(2) rev_rev_ident)
  ultimately have s: "s = rev r' @ ''('' @ ?ds @ '')''"
    by simp
  have "list_all isDigit ?ds"
    by (simp add: list_all_iff) (meson set_takeWhileD)
  moreover have "k = length (rev r')"
    using k by (subst (asm) s) simp
  ultimately show ?thesis
    using s ne by (intro exI [of _ "rev r'"] exI [of _ ?ds]) simp
qed

lemma hasCounter_iff:
  "hasCounter s \<longleftrightarrow>
     (\<exists>base ds. s = base @ ''('' @ ds @ '')'' \<and> ds \<noteq> [] \<and> list_all isDigit ds)"
proof
  assume "hasCounter s"
  then obtain k where "counterIndex s = Some k"
    by (auto simp: hasCounter_def split: option.splits)
  from counterIndex_SomeD [OF this] show
    "\<exists>base ds. s = base @ ''('' @ ds @ '')'' \<and> ds \<noteq> [] \<and> list_all isDigit ds"
    by blast
next
  assume "\<exists>base ds. s = base @ ''('' @ ds @ '')'' \<and> ds \<noteq> [] \<and> list_all isDigit ds"
  then obtain base ds where "s = base @ ''('' @ ds @ '')''" "ds \<noteq> []" "list_all isDigit ds"
    by blast
  then show "hasCounter s"
    using counterIndex_counter [of ds base] by (simp add: hasCounter_def)
qed

lemma endsWith_append: "endsWith (xs @ p) p"
  by (simp add: endsWith_def)

lemma endsWithD: "endsWith s p \<Longrightarrow> s = sliceEnd s (length p) @ p"
  by (metis append_take_drop_id endsWith_def sliceEnd_def)

lemma sliceEnd_append: "sliceEnd (xs @ p) (length p) = xs"
  by (simp add: sliceEnd_def)

lemma endsWith_jsonD: "endsWith s ''.json'' \<Longrightarrow> s = sliceEnd s 5 @ ''.json''"
  using endsWithD [of s "''.json''"] by (simp add: eval_nat_numeral)

lemma sliceEnd_json: "sliceEnd (xs @ ''.json'') 5 = xs"
  using sliceEnd_append [of xs "''.json''"] by (simp add: eval_nat_numeral)

lemma hasCounterSuffix_iff:
  "hasCounterSuffix file \<longleftrightarrow>
     (\<exists>base ds. file = base @ ''('' @ ds @ '').json'' \<and> ds \<noteq> [] \<and> list_all isDigit ds)"
proof
  assume h: "hasCounterSuffix file"
  then have e: "file = sliceEnd file 5 @ ''.json''"
    using endsWith_jsonD by (simp add: hasCounterSuffix_def)
  from h obtain base ds where
    "sliceEnd file 5 = base @ ''('' @ ds @ '')''" "ds \<noteq> []" "list_all isDigit ds"
    by (auto simp: hasCounterSuffix_def hasCounter_iff)
  with e have "file = base @ ''('' @ ds @ '').json''" by simp
  then show "\<exists>base ds. file = base @ ''('' @ ds @ '').json'' \<and> ds \<noteq> [] \<and> list_all isDigit ds"
    using \<open>ds \<noteq> []\<close> \<open>list_all isDigit ds\<close> by blast
next
  assume "\<exists>base ds. file = base @ ''('' @ ds @ '').json'' \<and> ds \<noteq> [] \<and> list_all isDigit ds"
  then obtain base ds where f: "file = base @ ''('' @ ds @ '').json''"
    and d: "ds \<noteq> []" "list_all isDigit ds"
    by blast
  have f': "file = (base @ ''('' @ ds @ '')'') @ ''.json''"
    using f by simp
  have "endsWith file ''.json''"
    unfolding f' by (rule endsWith_append)
  moreover have "sliceEnd file 5 = base @ ''('' @ ds @ '')''"
    unfolding f' by (rule sliceEnd_json)
  ultimately show "hasCounterSuffix file"
    using d hasCounter_iff by (auto simp: hasCounterSuffix_def)
qed

lemma afterLastLineTerminator_id:
  "list_all (\<lambda>c. \<not> isLineTerminator c) s \<Longrightarrow> afterLastLineTerminator s = s"
proof -
  assume "list_all (\<lambda>c. \<not> isLineTerminator c) s"
  then have "takeWhile (\<lambda>c. \<not> isLineTerminator c) (rev s) = rev s"
    by (simp add: list_all_iff)
  then show ?thesis
    unfolding afterLastLineTerminator_def by (simp only: rev_rev_ident)
qed

section \<open>The resolver: control flow\<close>

lemma getCompanion_resolveFrom:
  "getCompanionJsonPathForMediaFile env mediaFilePath =
     resolveFrom env (dirname env mediaFilePath) (extname env mediaFilePath)
       (stripEdited (basename env mediaFilePath (extname env mediaFilePath)))"
  by (simp add: getCompanionJsonPathForMediaFile_def Let_def)

lemma stemCounter_shape:
  assumes "ds \<noteq> []" and "list_all isDigit ds"
  shows "stemCounter (base @ ''('' @ ds @ '')'') = Some (base, ''('' @ ds @ '')'')"
proof -
  let ?s = "base @ ''('' @ ds @ '')''"
  have b: "butlast ?s = base @ ''('' @ ds"
    by (simp add: butlast_append)
  have all: "\<forall>x\<in>set (rev ds). isDigit x"
    using assms(2) by (simp add: list_all_iff)
  have "takeWhile isDigit (rev ds @ CHR ''('' # rev base)
          = rev ds @ takeWhile isDigit (CHR ''('' # rev base)"
    by (rule takeWhile_append2) (use all in blast)
  then have "takeWhile isDigit (rev (butlast ?s)) = rev ds"
    unfolding b by (simp add: not_isDigit_paren)
  then have d: "rev (takeWhile isDigit (rev (butlast ?s))) = ds"
    by (simp only: rev_rev_ident)
  have t: "take (length ?s - (length ds + 2)) ?s = base"
    by simp
  show ?thesis
    unfolding stemCounter_def Let_def d t using assms(1) by simp
qed

lemma stemCounter_SomeD:
  assumes "stemCounter s = Some (b, c)"
  shows "\<exists>ds. s = b @ ''('' @ ds @ '')'' \<and> c = ''('' @ ds @ '')'' \<and> ds \<noteq> [] \<and> list_all isDigit ds"
proof -
  let ?ds = "rev (takeWhile isDigit (rev (butlast s)))"
  have "list_all isDigit ?ds"
    by (simp add: list_all_iff) (meson set_takeWhileD)
  moreover from assms have "?ds \<noteq> [] \<and> s = b @ ''('' @ ?ds @ '')'' \<and> c = ''('' @ ?ds @ '')''"
    by (auto simp: stemCounter_def Let_def split: if_splits)
  ultimately show ?thesis
    by blast
qed

lemma stemCounter_counterIndex:
  "stemCounter s = (case counterIndex s of None \<Rightarrow> None | Some k \<Rightarrow> Some (take k s, drop k s))"
proof (cases "counterIndex s")
  case None
  have "stemCounter s = None"
  proof (rule ccontr)
    assume "stemCounter s \<noteq> None"
    then obtain b c where "stemCounter s = Some (b, c)"
      by auto
    from stemCounter_SomeD [OF this] obtain ds where
      "s = b @ ''('' @ ds @ '')''" "ds \<noteq> []" "list_all isDigit ds"
      by blast
    with counterIndex_counter [of ds b] None show False
      by simp
  qed
  with None show ?thesis by simp
next
  case (Some k)
  from counterIndex_SomeD [OF this] obtain base ds where
    s: "s = base @ ''('' @ ds @ '')''" and d: "ds \<noteq> []" "list_all isDigit ds"
    and k: "k = length base"
    by blast
  have "take k s = base" "drop k s = ''('' @ ds @ '')''"
    unfolding s k by simp_all
  moreover have "stemCounter s = Some (base, ''('' @ ds @ '')'')"
    unfolding s using d by (rule stemCounter_shape)
  ultimately show ?thesis
    using Some by simp
qed

lemma carriesCounter_hasCounter: "carriesCounter s = hasCounter s"
  by (simp add: carriesCounter_def hasCounter_def stemCounter_counterIndex split: option.split)

lemma firstExistingCandidate_Nil: "firstExistingCandidate env dir [] = None"
  by (simp add: firstExistingCandidate_def)

lemma firstExistingCandidate_Cons:
  "firstExistingCandidate env dir (n # ns) =
     (if existsSync env (resolve env dir n) then Some (resolve env dir n)
      else firstExistingCandidate env dir ns)"
  by (simp add: firstExistingCandidate_def)

lemma firstExistingCandidate_append:
  "firstExistingCandidate env dir (xs @ ys) =
     (case firstExistingCandidate env dir xs of
        Some p \<Rightarrow> Some p
      | None \<Rightarrow> firstExistingCandidate env dir ys)"
  by (induction xs) (simp_all add: firstExistingCandidate_Nil firstExistingCandidate_Cons)

lemma returnFirstExisting_first:
  "returnFirstExisting env dir ns = firstExistingCandidate env dir ns"
  by (induction ns) (simp_all add: firstExistingCandidate_Nil firstExistingCandidate_Cons Let_def)

lemma supplementalLoop_first:
  "supplementalLoop env dir stem entries =
     firstExistingCandidate env dir
       (filter (\<lambda>entry. startsWith entry stem \<and> endsWith entry ''.supplemental-metadata.json'')
          entries)"
  by (induction entries)
     (simp_all add: firstExistingCandidate_Nil firstExistingCandidate_Cons Let_def)

lemma prefixJsonLoop_first:
  "prefixJsonLoop env dir stem entries =
     firstExistingCandidate env dir
       (filter (\<lambda>entry. startsWith entry stem \<and> endsWith entry ''.json''
                  \<and> carriesCounter (take (length entry - 5) entry) = carriesCounter stem)
          entries)"
  by (induction entries)
     (simp_all add: firstExistingCandidate_Nil firstExistingCandidate_Cons Let_def
        carriesCounter_hasCounter hasCounterSuffix_def sliceEnd_def)

lemma reverseTruncationLoop_first:
  "reverseTruncationLoop env dir stem entries =
     firstExistingCandidate env dir
       (filter (\<lambda>entry. endsWith entry ''.json'' \<and> startsWith stem (take (length entry - 5) entry))
          entries)"
  by (induction entries)
     (simp_all add: firstExistingCandidate_Nil firstExistingCandidate_Cons Let_def sliceEnd_def)

lemma supplementalScan_first:
  "tryCatch (supplementalScan env dir stem) =
     Inr (firstExistingCandidate env dir (priority3 env dir stem))"
  by (simp add: tryCatch_def supplementalScan_def priority3_def listing_def
        supplementalLoop_first firstExistingCandidate_Nil split: sum.split)

lemma prefixJsonScan_first:
  "tryCatch (prefixJsonScan env dir stem) =
     Inr (firstExistingCandidate env dir (priority4 env dir stem))"
  by (simp add: tryCatch_def prefixJsonScan_def priority4_def listing_def
        prefixJsonLoop_first firstExistingCandidate_Nil split: sum.split)

lemma reverseTruncationScan_first:
  "tryCatch (reverseTruncationScan env dir stem) =
     Inr (firstExistingCandidate env dir (priority5 env dir stem))"
  by (simp add: tryCatch_def reverseTruncationScan_def priority5_def listing_def
        reverseTruncationLoop_first firstExistingCandidate_Nil split: sum.split)

text \<open>The names of lines 19 to 52 are those of priorities 1 and 2 when no line terminator
  stands in front of the counter.\<close>

lemma potentialJsonFileNames_priorities:
  assumes "\<And>k. counterIndex stem = Some k \<Longrightarrow> list_all (\<lambda>c. \<not> isLineTerminator c) (take k stem)"
  shows "potentialJsonFileNames stem ext = priority1 stem ext @ priority2 stem ext"
proof -
  have c: "counterNames stem ext =
      (case stemCounter stem of
         None \<Rightarrow> []
       | Some (stemWithoutCounter, counter) \<Rightarrow>
           [stemWithoutCounter @ ext @ counter @ ''.json'',
            stemWithoutCounter @ ext @ ''.supplemental-metadata'' @ counter @ ''.json''])"
  proof (cases "counterIndex stem")
    case None
    then show ?thesis
      by (simp add: counterNames_def nameWithCounterMatch_def stemCounter_counterIndex)
  next
    case (Some k)
    from assms [OF this] have "afterLastLineTerminator (take k stem) = take k stem"
      by (rule afterLastLineTerminator_id)
    with Some show ?thesis
      by (simp add: counterNames_def nameWithCounterMatch_def stemCounter_counterIndex)
  qed
  have t: "trailingNames stem ext = priority2 stem ext"
    by (simp add: trailingNames_def priority2_def directCandidates_def sliceEnd_def Let_def
          butlast_conv_take)
  show ?thesis
    unfolding potentialJsonFileNames_def priority1_def c t
    by (simp add: directNames_def directCandidates_def)
qed

lemma sameCounterCase_first:
  "sameCounterCase env dir stem imgExt =
     firstExistingCandidate env dir (candidates6a env dir stem imgExt)"
  by (simp add: sameCounterCase_def candidates6a_def returnFirstExisting_first
        stemCounter_counterIndex firstExistingCandidate_Nil firstExistingCandidate_Cons Let_def
        split: option.split)

text \<open>Case 2 of the loop over the images is 6b when the text in front of the counter is
  not empty and holds no line terminator.\<close>

lemma baseImageCase_first:
  assumes "\<And>k. counterIndex stem = Some k \<Longrightarrow>
             list_all (\<lambda>c. \<not> isLineTerminator c) (take k stem) \<and> 0 < k"
  shows "baseImageCase env dir stem imgExt =
     firstExistingCandidate env dir (candidates6b env dir stem imgExt)"
proof (cases "counterIndex stem")
  case None
  then show ?thesis
    by (simp add: baseImageCase_def baseNameMatch_def candidates6b_def stemCounter_counterIndex
          firstExistingCandidate_Nil)
next
  case (Some k)
  from assms [OF this] Some have "baseNameMatch stem = Some (take k stem)"
    by (simp add: baseNameMatch_def)
  with Some show ?thesis
    by (simp add: baseImageCase_def candidates6b_def stemCounter_counterIndex
          returnFirstExisting_first firstExistingCandidate_Nil firstExistingCandidate_Cons Let_def)
qed

lemma imageLoop_first:
  assumes "\<And>k. counterIndex stem = Some k \<Longrightarrow>
             list_all (\<lambda>c. \<not> isLineTerminator c) (take k stem) \<and> 0 < k"
  shows "imageLoop env dir stem exts =
     firstExistingCandidate env dir
       (concat (map (\<lambda>imgExt. candidates6a env dir stem imgExt @ candidates6b env dir stem imgExt)
                  exts))"
  by (induction exts)
     (simp_all add: firstExistingCandidate_Nil firstExistingCandidate_append
        sameCounterCase_first baseImageCase_first [OF assms] split: option.split)

lemma crossMediaFallback_first:
  assumes "\<And>k. counterIndex stem = Some k \<Longrightarrow>
             list_all (\<lambda>c. \<not> isLineTerminator c) (take k stem)
             \<and> (toLowerCase ext \<in> set videoExtensions \<longrightarrow> 0 < k)"
  shows "crossMediaFallback env dir ext stem =
     firstExistingCandidate env dir (priority6 env dir ext stem)"
proof (cases "toLowerCase ext \<in> set videoExtensions")
  case True
  with assms have "\<And>k. counterIndex stem = Some k \<Longrightarrow>
             list_all (\<lambda>c. \<not> isLineTerminator c) (take k stem) \<and> 0 < k"
    by blast
  from imageLoop_first [OF this] True show ?thesis
    by (simp add: crossMediaFallback_def priority6_def)
next
  case False
  then show ?thesis
    by (simp add: crossMediaFallback_def priority6_def firstExistingCandidate_Nil)
qed

lemma andThen_Inr:
  "andThen (Inr a) (Inr b) = Inr (case a of Some p \<Rightarrow> Some p | None \<Rightarrow> b)"
  by (simp add: andThen_def split: option.split)

lemma resolveFrom_first:
  assumes "\<And>k. counterIndex stem = Some k \<Longrightarrow>
             list_all (\<lambda>c. \<not> isLineTerminator c) (take k stem)
             \<and> (toLowerCase ext \<in> set videoExtensions \<longrightarrow> 0 < k)"
  shows "resolveFrom env dir ext stem =
     Inr (firstExistingCandidate env dir (candidateNames env dir ext stem))"
proof -
  have n: "potentialJsonFileNames stem ext = priority1 stem ext @ priority2 stem ext"
    using assms by (intro potentialJsonFileNames_priorities) blast
  have x: "crossMediaFallback env dir ext stem =
      firstExistingCandidate env dir (priority6 env dir ext stem)"
    using assms by (intro crossMediaFallback_first) blast
  show ?thesis
    unfolding resolveFrom_def candidateNames_def n returnFirstExisting_first x
      supplementalScan_first prefixJsonScan_first reverseTruncationScan_first andThen_Inr
    by (simp add: firstExistingCandidate_append split: option.split)
qed

text \<open>
  C1, amended. For every media file path whose stem, when it ends with a counter
  \<open>(digits)\<close>, has no line terminator in front of the counter and, for a video file,
  some text in front of it, the resolver returns the path of the first candidate that
  exists, in the order of the six priorities and, inside each, in the order of its own
  list; when no candidate exists it returns null.
\<close>

theorem resolver_first_existing_candidate:
  assumes "\<forall>base ds.
      stripEdited (basename env mediaFilePath (extname env mediaFilePath))
        = base @ ''('' @ ds @ '')'' \<and> ds \<noteq> [] \<and> list_all isDigit ds
      \<longrightarrow> list_all (\<lambda>c. \<not> isLineTerminator c) base
          \<and> (toLowerCase (extname env mediaFilePath) \<in> set videoExtensions \<longrightarrow> base \<noteq> [])"
  shows "getCompanionJsonPathForMediaFile env mediaFilePath =
     Inr (firstExistingCandidate env (dirname env mediaFilePath)
            (candidateNames env (dirname env mediaFilePath) (extname env mediaFilePath)
               (stripEdited (basename env mediaFilePath (extname env mediaFilePath)))))"
proof -
  let ?stem = "stripEdited (basename env mediaFilePath (extname env mediaFilePath))"
  let ?ext = "extname env mediaFilePath"
  have "list_all (\<lambda>c. \<not> isLineTerminator c) (take k ?stem)
        \<and> (toLowerCase ?ext \<in> set videoExtensions \<longrightarrow> 0 < k)"
    if "counterIndex ?stem = Some k" for k
  proof -
    from counterIndex_SomeD [OF that] obtain base ds where
      s: "?stem = base @ ''('' @ ds @ '')''" and d: "ds \<noteq> []" "list_all isDigit ds"
      and k: "k = length base"
      by blast
    have "take k ?stem = base"
      unfolding s k by simp
    moreover from assms s d have "list_all (\<lambda>c. \<not> isLineTerminator c) base
        \<and> (toLowerCase ?ext \<in> set videoExtensions \<longrightarrow> base \<noteq> [])"
      by blast
    ultimately show ?thesis
      using k by simp
  qed
  from resolveFrom_first [of ?stem ?ext, OF this] show ?thesis
    by (simp add: getCompanion_resolveFrom)
qed

theorem resolver_first_existing_candidate_witness:
  "getCompanionJsonPathForMediaFile
     (posixNode ''/d'' True [''foo(1).mp4'', ''foo.jpg'', ''foo.jpg.json'']) ''/d/foo(1).mp4''
   = Inr (Some ''/d/foo.jpg.json'')
   \<and> candidateNames (posixNode ''/d'' True [''foo(1).mp4'', ''foo.jpg'', ''foo.jpg.json''])
       ''/d'' ''.mp4'' ''foo(1)''
     = [''foo(1).json'', ''foo(1).mp4.json'', ''foo(1).mp4.supplemental-metadata.json'',
        ''foo.mp4(1).json'', ''foo.mp4.supplemental-metadata(1).json'',
        ''foo.jpg.supplemental-metadata.json'', ''foo.jpg.json'']"
proof -
  let ?env = "posixNode ''/d'' True [''foo(1).mp4'', ''foo.jpg'', ''foo.jpg.json'']"
  have p: "extname ?env ''/d/foo(1).mp4'' = ''.mp4''"
    "stripEdited (basename ?env ''/d/foo(1).mp4'' ''.mp4'') = ''foo(1)''"
    "dirname ?env ''/d/foo(1).mp4'' = ''/d''"
    by code_simp+
  have i: "counterIndex ''foo(1)'' = Some 3"
    by code_simp
  have h: "\<forall>base ds. ''foo(1)'' = base @ ''('' @ ds @ '')'' \<and> ds \<noteq> [] \<and> list_all isDigit ds
      \<longrightarrow> list_all (\<lambda>c. \<not> isLineTerminator c) base
          \<and> (toLowerCase ''.mp4'' \<in> set videoExtensions \<longrightarrow> base \<noteq> [])"
  proof (intro allI impI)
    fix base ds
    assume a: "''foo(1)'' = base @ ''('' @ ds @ '')'' \<and> ds \<noteq> [] \<and> list_all isDigit ds"
    then have s: "''foo(1)'' = base @ ''('' @ ds @ '')''"
      by blast
    from a have "counterIndex (base @ ''('' @ ds @ '')'') = Some (length base)"
      using counterIndex_counter [of ds base] by blast
    then have "counterIndex ''foo(1)'' = Some (length base)"
      by (subst s)
    with i have l: "length base = 3"
      by simp
    have "take (length base) (base @ ''('' @ ds @ '')'') = base"
      by simp
    then have "take (length base) ''foo(1)'' = base"
      by (subst s)
    then have "base = ''foo''"
      unfolding l by simp
    then show "list_all (\<lambda>c. \<not> isLineTerminator c) base
          \<and> (toLowerCase ''.mp4'' \<in> set videoExtensions \<longrightarrow> base \<noteq> [])"
      by (simp add: isLineTerminator_def)
  qed
  have c: "candidateNames ?env ''/d'' ''.mp4'' ''foo(1)''
     = [''foo(1).json'', ''foo(1).mp4.json'', ''foo(1).mp4.supplemental-metadata.json'',
        ''foo.mp4(1).json'', ''foo.mp4.supplemental-metadata(1).json'',
        ''foo.jpg.supplemental-metadata.json'', ''foo.jpg.json'']"
    by code_simp
  have f: "firstExistingCandidate ?env ''/d''
      [''foo(1).json'', ''foo(1).mp4.json'', ''foo(1).mp4.supplemental-metadata.json'',
        ''foo.mp4(1).json'', ''foo.mp4.supplemental-metadata(1).json'',
        ''foo.jpg.supplemental-metadata.json'', ''foo.jpg.json''] = Some ''/d/foo.jpg.json''"
    by code_simp
  note inst = resolver_first_existing_candidate [of ?env "''/d/foo(1).mp4''", unfolded p]
  from inst [OF h]
  have "getCompanionJsonPathForMediaFile ?env ''/d/foo(1).mp4'' = Inr (Some ''/d/foo.jpg.json'')"
    unfolding c f .
  with c show ?thesis
    by (intro conjI)
qed

text \<open>
  The wording of the specification fails twice here. For \<open>a<LF>b(1).jpg\<close> the
  candidate \<open>{stemWithoutCounter}{ext}(1).json\<close> exists, but the code builds its fourth
  name from the text after the line feed and finds nothing. For the video \<open>(1).mp4\<close>,
  whose stem is a counter and nothing else, the image \<open>.jpg\<close> and its sidecar exist, but
  the code asks for some text in front of the counter and does not look at them.
\<close>

theorem resolver_first_existing_candidate_counterexample:
  "getCompanionJsonPathForMediaFile
     (posixNode ''/d'' True
        [''a'' @ [CHR 0x0A] @ ''b(1).jpg'', ''a'' @ [CHR 0x0A] @ ''b.jpg(1).json''])
     (''/d/a'' @ [CHR 0x0A] @ ''b(1).jpg'')
   = Inr None
   \<and> firstExistingCandidate
       (posixNode ''/d'' True
          [''a'' @ [CHR 0x0A] @ ''b(1).jpg'', ''a'' @ [CHR 0x0A] @ ''b.jpg(1).json''])
       ''/d''
       (candidateNames
          (posixNode ''/d'' True
             [''a'' @ [CHR 0x0A] @ ''b(1).jpg'', ''a'' @ [CHR 0x0A] @ ''b.jpg(1).json''])
          ''/d'' ''.jpg'' (''a'' @ [CHR 0x0A] @ ''b(1)''))
     = Some (''/d/a'' @ [CHR 0x0A] @ ''b.jpg(1).json'')
   \<and> getCompanionJsonPathForMediaFile
       (posixNode ''/d'' True [''(1).mp4'', ''.jpg'', ''.jpg.supplemental-metadata.json''])
       ''/d/(1).mp4''
     = Inr None
   \<and> firstExistingCandidate
       (posixNode ''/d'' True [''(1).mp4'', ''.jpg'', ''.jpg.supplemental-metadata.json''])
       ''/d''
       (candidateNames
          (posixNode ''/d'' True [''(1).mp4'', ''.jpg'', ''.jpg.supplemental-metadata.json''])
          ''/d'' ''.mp4'' ''(1)'')
     = Some ''/d/.jpg.supplemental-metadata.json''"
  by code_simp

section \<open>Every returned path exists\<close>

lemma returnFirstExisting_exists:
  "returnFirstExisting env dir ns = Some p \<Longrightarrow> existsSync env p"
  by (induction ns) (auto simp: Let_def split: if_splits)

lemma supplementalLoop_Some:
  "supplementalLoop env dir stem files = Some p \<Longrightarrow>
     \<exists>file\<in>set files. p = resolve env dir file \<and> startsWith file stem
        \<and> endsWith file ''.supplemental-metadata.json'' \<and> existsSync env p"
  by (induction files) (auto simp: Let_def split: if_splits)

lemma prefixJsonLoop_Some:
  "prefixJsonLoop env dir stem files = Some p \<Longrightarrow>
     \<exists>file\<in>set files. p = resolve env dir file \<and> startsWith file stem
        \<and> endsWith file ''.json'' \<and> hasCounterSuffix file = hasCounter stem
        \<and> existsSync env p"
  by (induction files) (auto simp: Let_def split: if_splits)

lemma reverseTruncationLoop_Some:
  "reverseTruncationLoop env dir stem files = Some p \<Longrightarrow>
     \<exists>file\<in>set files. p = resolve env dir file \<and> endsWith file ''.json''
        \<and> startsWith stem (sliceEnd file 5) \<and> existsSync env p"
  by (induction files) (auto simp: Let_def split: if_splits)

lemma sameCounterCase_exists:
  "sameCounterCase env dir stem imgExt = Some p \<Longrightarrow> existsSync env p"
  by (auto simp: sameCounterCase_def Let_def split: if_splits option.splits
        dest: returnFirstExisting_exists)

lemma baseImageCase_exists:
  "baseImageCase env dir stem imgExt = Some p \<Longrightarrow> existsSync env p"
  by (auto simp: baseImageCase_def Let_def split: if_splits option.splits
        dest: returnFirstExisting_exists)

lemma imageLoop_exists:
  "imageLoop env dir stem exts = Some p \<Longrightarrow> existsSync env p"
  by (induction exts)
     (auto split: option.splits dest: sameCounterCase_exists baseImageCase_exists)

lemma crossMediaFallback_exists:
  "crossMediaFallback env dir ext stem = Some p \<Longrightarrow> existsSync env p"
  by (auto simp: crossMediaFallback_def split: if_splits dest: imageLoop_exists)

lemma tryCatch_scan_exists:
  "tryCatch (supplementalScan env dir stem) = Inr (Some p) \<Longrightarrow> existsSync env p"
  "tryCatch (prefixJsonScan env dir stem) = Inr (Some p) \<Longrightarrow> existsSync env p"
  "tryCatch (reverseTruncationScan env dir stem) = Inr (Some p) \<Longrightarrow> existsSync env p"
  by (auto simp: tryCatch_def supplementalScan_def prefixJsonScan_def reverseTruncationScan_def
        split: sum.splits
        dest: supplementalLoop_Some prefixJsonLoop_Some reverseTruncationLoop_Some)

lemma andThen_Some:
  "andThen s t = Inr (Some p) \<Longrightarrow> s = Inr (Some p) \<or> (s = Inr None \<and> t = Inr (Some p))"
  by (auto simp: andThen_def split: sum.splits option.splits)

lemma resolveFrom_exists:
  assumes "resolveFrom env dir ext stem = Inr (Some p)"
  shows "existsSync env p"
  using assms unfolding resolveFrom_def
  by (auto dest!: andThen_Some
        dest: returnFirstExisting_exists tryCatch_scan_exists crossMediaFallback_exists)

text \<open>
  C2. Whenever the resolver returns a path, an existence check on that very path has
  succeeded: no path is returned that was not checked.
\<close>

theorem resolver_returns_existing_path:
  "getCompanionJsonPathForMediaFile env mediaFilePath = Inr (Some p) \<Longrightarrow> existsSync env p"
  by (simp add: getCompanion_resolveFrom resolveFrom_exists)

theorem resolver_returns_existing_path_witness:
  "getCompanionJsonPathForMediaFile
     (posixNode ''/d'' True [''foo.jpg'', ''foo.jpg.json'']) ''/d/foo.jpg''
   = Inr (Some ''/d/foo.jpg.json'')
   \<and> existsSync (posixNode ''/d'' True [''foo.jpg'', ''foo.jpg.json'']) ''/d/foo.jpg.json''"
proof -
  have run: "getCompanionJsonPathForMediaFile
      (posixNode ''/d'' True [''foo.jpg'', ''foo.jpg.json'']) ''/d/foo.jpg''
    = Inr (Some ''/d/foo.jpg.json'')"
    by code_simp
  from resolver_returns_existing_path [OF run] run show ?thesis by simp
qed

section \<open>The names tried first\<close>

lemma nameWithCounterMatch_counter:
  assumes "ds \<noteq> []" and "list_all isDigit ds"
    and "list_all (\<lambda>c. \<not> isLineTerminator c) base"
  shows "nameWithCounterMatch (base @ ''('' @ ds @ '')'') = Some (base, ''('' @ ds @ '')'')"
  using counterIndex_counter [OF assms(1,2), of base] assms(3)
  by (simp add: nameWithCounterMatch_def afterLastLineTerminator_id)

lemma endsWith_last: "endsWith s p \<Longrightarrow> p \<noteq> [] \<Longrightarrow> s \<noteq> [] \<and> last s = last p"
  by (metis append_is_Nil_conv endsWithD last_appendR)

lemma trailingNames_counter: "trailingNames (base @ ''('' @ ds @ '')'') ext = []"
proof -
  let ?s = "base @ ''('' @ ds @ '')''"
  have l: "last ?s = CHR '')''" by simp
  have "\<not> endsWith ?s ''_n-''" "\<not> endsWith ?s ''_n''" "\<not> endsWith ?s ''_''"
    using endsWith_last [of ?s] l by fastforce+
  then show ?thesis
    by (simp add: trailingNames_def)
qed

lemma returnFirstExisting_fourth:
  assumes "\<not> existsSync env (resolve env dir a)" "\<not> existsSync env (resolve env dir b)"
    "\<not> existsSync env (resolve env dir c)" "existsSync env (resolve env dir d)"
  shows "returnFirstExisting env dir (a # b # c # d # rest) = Some (resolve env dir d)"
  using assms by (simp add: Let_def)

lemma andThen_returned: "andThen (Inr (Some p)) t = Inr (Some p)"
  by (simp add: andThen_def)

lemma andThen_fell_through: "andThen (Inr None) t = t"
  by (simp add: andThen_def)

lemma potentialJsonFileNames_foo1:
  "potentialJsonFileNames ''foo(1)'' ''.jpg'' =
     [''foo(1).json'', ''foo(1).jpg.json'', ''foo(1).jpg.supplemental-metadata.json'',
      ''foo.jpg(1).json'', ''foo.jpg.supplemental-metadata(1).json'']"
  by code_simp

lemma stripEdited_foo1: "stripEdited ''foo(1)'' = ''foo(1)''"
  by code_simp

text \<open>
  C3, amended. For a stem that ends with a counter \<open>(n)\<close> and holds no line terminator in
  front of it, the names tried are the three direct names and then, with the extension
  put in front of the counter, \<open>{base}{ext}(n).json\<close> and
  \<open>{base}{ext}.supplemental-metadata(n).json\<close>. For \<open>foo(1).jpg\<close>, when none of
  \<open>foo(1).json\<close>, \<open>foo(1).jpg.json\<close> and \<open>foo(1).jpg.supplemental-metadata.json\<close> exists
  and \<open>foo.jpg(1).json\<close> does, the resolver returns the path of \<open>foo.jpg(1).json\<close>.
\<close>

theorem counter_relocated_names:
  "(ds \<noteq> [] \<and> list_all isDigit ds \<and> list_all (\<lambda>c. \<not> isLineTerminator c) base \<longrightarrow>
      potentialJsonFileNames (base @ ''('' @ ds @ '')'') ext =
        directNames (base @ ''('' @ ds @ '')'') ext
        @ [base @ ext @ ''('' @ ds @ '')'' @ ''.json'',
           base @ ext @ ''.supplemental-metadata'' @ ''('' @ ds @ '')'' @ ''.json''])
   \<and> (extname env mediaFilePath = ''.jpg''
        \<and> basename env mediaFilePath ''.jpg'' = ''foo(1)''
        \<and> \<not> existsSync env (resolve env (dirname env mediaFilePath) ''foo(1).json'')
        \<and> \<not> existsSync env (resolve env (dirname env mediaFilePath) ''foo(1).jpg.json'')
        \<and> \<not> existsSync env (resolve env (dirname env mediaFilePath)
                ''foo(1).jpg.supplemental-metadata.json'')
        \<and> existsSync env (resolve env (dirname env mediaFilePath) ''foo.jpg(1).json'') \<longrightarrow>
      getCompanionJsonPathForMediaFile env mediaFilePath =
        Inr (Some (resolve env (dirname env mediaFilePath) ''foo.jpg(1).json'')))"
proof (intro conjI impI)
  assume "ds \<noteq> [] \<and> list_all isDigit ds \<and> list_all (\<lambda>c. \<not> isLineTerminator c) base"
  then have "nameWithCounterMatch (base @ ''('' @ ds @ '')'') = Some (base, ''('' @ ds @ '')'')"
    using nameWithCounterMatch_counter [of ds base] by blast
  then have "counterNames (base @ ''('' @ ds @ '')'') ext =
      [base @ ext @ ''('' @ ds @ '')'' @ ''.json'',
       base @ ext @ ''.supplemental-metadata'' @ ''('' @ ds @ '')'' @ ''.json'']"
    by (simp add: counterNames_def)
  then show "potentialJsonFileNames (base @ ''('' @ ds @ '')'') ext =
      directNames (base @ ''('' @ ds @ '')'') ext
      @ [base @ ext @ ''('' @ ds @ '')'' @ ''.json'',
         base @ ext @ ''.supplemental-metadata'' @ ''('' @ ds @ '')'' @ ''.json'']"
    unfolding potentialJsonFileNames_def trailingNames_counter by simp
next
  let ?dir = "dirname env mediaFilePath"
  assume h: "extname env mediaFilePath = ''.jpg''
        \<and> basename env mediaFilePath ''.jpg'' = ''foo(1)''
        \<and> \<not> existsSync env (resolve env ?dir ''foo(1).json'')
        \<and> \<not> existsSync env (resolve env ?dir ''foo(1).jpg.json'')
        \<and> \<not> existsSync env (resolve env ?dir ''foo(1).jpg.supplemental-metadata.json'')
        \<and> existsSync env (resolve env ?dir ''foo.jpg(1).json'')"
  have "returnFirstExisting env ?dir (potentialJsonFileNames ''foo(1)'' ''.jpg'')
          = Some (resolve env ?dir ''foo.jpg(1).json'')"
    unfolding potentialJsonFileNames_foo1 using h by (intro returnFirstExisting_fourth) blast+
  then have "resolveFrom env ?dir ''.jpg'' ''foo(1)''
          = Inr (Some (resolve env ?dir ''foo.jpg(1).json''))"
    by (simp add: resolveFrom_def andThen_returned)
  then show "getCompanionJsonPathForMediaFile env mediaFilePath =
        Inr (Some (resolve env ?dir ''foo.jpg(1).json''))"
    using h by (simp add: getCompanion_resolveFrom stripEdited_foo1)
qed

theorem counter_relocated_names_witness:
  "potentialJsonFileNames ''IMG_0001(12)'' ''.png'' =
     [''IMG_0001(12).json'', ''IMG_0001(12).png.json'',
      ''IMG_0001(12).png.supplemental-metadata.json'',
      ''IMG_0001.png(12).json'', ''IMG_0001.png.supplemental-metadata(12).json'']
   \<and> getCompanionJsonPathForMediaFile
       (posixNode ''/d'' True [''foo(1).jpg'', ''foo.jpg(1).json'']) ''/d/foo(1).jpg''
     = Inr (Some ''/d/foo.jpg(1).json'')"
proof -
  let ?env = "posixNode ''/d'' True [''foo(1).jpg'', ''foo.jpg(1).json'']"
  have d: "''12'' \<noteq> [] \<and> list_all isDigit ''12''
      \<and> list_all (\<lambda>c. \<not> isLineTerminator c) ''IMG_0001''"
    by code_simp
  have h: "extname ?env ''/d/foo(1).jpg'' = ''.jpg''
        \<and> basename ?env ''/d/foo(1).jpg'' ''.jpg'' = ''foo(1)''
        \<and> \<not> existsSync ?env (resolve ?env (dirname ?env ''/d/foo(1).jpg'') ''foo(1).json'')
        \<and> \<not> existsSync ?env (resolve ?env (dirname ?env ''/d/foo(1).jpg'') ''foo(1).jpg.json'')
        \<and> \<not> existsSync ?env (resolve ?env (dirname ?env ''/d/foo(1).jpg'')
                ''foo(1).jpg.supplemental-metadata.json'')
        \<and> existsSync ?env (resolve ?env (dirname ?env ''/d/foo(1).jpg'') ''foo.jpg(1).json'')"
    by code_simp
  have r: "resolve ?env (dirname ?env ''/d/foo(1).jpg'') ''foo.jpg(1).json'' = ''/d/foo.jpg(1).json''"
    by code_simp
  from counter_relocated_names [of "''12''" "''IMG_0001''" "''.png''" ?env "''/d/foo(1).jpg''"]
  have a: "potentialJsonFileNames (''IMG_0001'' @ ''('' @ ''12'' @ '')'') ''.png'' =
        directNames (''IMG_0001'' @ ''('' @ ''12'' @ '')'') ''.png''
        @ [''IMG_0001'' @ ''.png'' @ ''('' @ ''12'' @ '')'' @ ''.json'',
           ''IMG_0001'' @ ''.png'' @ ''.supplemental-metadata'' @ ''('' @ ''12'' @ '')'' @ ''.json'']"
    and b: "getCompanionJsonPathForMediaFile ?env ''/d/foo(1).jpg'' =
        Inr (Some (resolve ?env (dirname ?env ''/d/foo(1).jpg'') ''foo.jpg(1).json''))"
    using d h by blast+
  from a have "potentialJsonFileNames ''IMG_0001(12)'' ''.png'' =
     [''IMG_0001(12).json'', ''IMG_0001(12).png.json'',
      ''IMG_0001(12).png.supplemental-metadata.json'',
      ''IMG_0001.png(12).json'', ''IMG_0001.png.supplemental-metadata(12).json'']"
    by (simp add: directNames_def)
  moreover from b have "getCompanionJsonPathForMediaFile ?env ''/d/foo(1).jpg''
      = Inr (Some ''/d/foo.jpg(1).json'')"
    unfolding r .
  ultimately show ?thesis
    by blast
qed

text \<open>
  The wording of the specification fails twice here. With \<open>foo(1).json\<close> in the directory
  too, \<open>foo.jpg(1).json\<close> exists, \<open>foo(1).jpg.json\<close> does not, and the resolver returns
  \<open>foo(1).json\<close>, the first direct name. And for a stem with a line feed in front of
  the counter the two names lose everything up to the line feed.
\<close>

theorem counter_relocated_names_counterexample:
  "getCompanionJsonPathForMediaFile
     (posixNode ''/d'' True [''foo(1).jpg'', ''foo(1).json'', ''foo.jpg(1).json'']) ''/d/foo(1).jpg''
   = Inr (Some ''/d/foo(1).json'')
   \<and> existsSync (posixNode ''/d'' True [''foo(1).jpg'', ''foo(1).json'', ''foo.jpg(1).json''])
       ''/d/foo.jpg(1).json''
   \<and> \<not> existsSync (posixNode ''/d'' True [''foo(1).jpg'', ''foo(1).json'', ''foo.jpg(1).json''])
       ''/d/foo(1).jpg.json''
   \<and> counterNames (''a'' @ [CHR 0x0A] @ ''b(1)'') ''.jpg''
     = [''b.jpg(1).json'', ''b.jpg.supplemental-metadata(1).json'']"
  by code_simp

section \<open>The gate on the counter\<close>

lemma hasCounterSuffix_snow: "\<not> hasCounterSuffix ''SNOW.mp4.supplemental-metadata(1).json'' = hasCounter ''SNOW''"
  by code_simp

lemma prefixJsonLoop_skip:
  "hasCounterSuffix entry \<noteq> hasCounter stem \<Longrightarrow>
     prefixJsonLoop env dir stem (xs @ entry # ys) = prefixJsonLoop env dir stem (xs @ ys)"
  by (induction xs) (simp_all add: Let_def)

lemma prefixJsonLoop_snow_only:
  "prefixJsonLoop env dir ''SNOW'' [''SNOW.mp4'', ''SNOW.mp4.supplemental-metadata(1).json''] = None"
proof -
  have a: "\<not> endsWith ''SNOW.mp4'' ''.json''" by code_simp
  show ?thesis
    using a hasCounterSuffix_snow by (simp add: Let_def)
qed

text \<open>
  C4. The loop of the prefix + \<open>.json\<close> scan returns only the path of an entry that starts
  with the stem, ends in \<open>.json\<close>, and carries a counter \<open>(digits)\<close> right in front of
  \<open>.json\<close> exactly when the stem ends with a counter. For the stem \<open>SNOW\<close> the entry
  \<open>SNOW.mp4.supplemental-metadata(1).json\<close> is passed over wherever it stands in the
  listing, and with it as the only sidecar the scan hands over to what follows.
\<close>

theorem prefix_json_scan_counter_parity:
  "(prefixJsonLoop env dir stem files = Some p \<longrightarrow>
      (\<exists>entry\<in>set files.
          p = resolve env dir entry \<and> startsWith entry stem \<and> endsWith entry ''.json''
          \<and> ((\<exists>base ds. entry = base @ ''('' @ ds @ '').json'' \<and> ds \<noteq> [] \<and> list_all isDigit ds)
               = (\<exists>base ds. stem = base @ ''('' @ ds @ '')'' \<and> ds \<noteq> [] \<and> list_all isDigit ds))))
   \<and> prefixJsonLoop env dir ''SNOW'' (xs @ ''SNOW.mp4.supplemental-metadata(1).json'' # ys)
       = prefixJsonLoop env dir ''SNOW'' (xs @ ys)
   \<and> (readdirSync env dir = Inr [''SNOW.mp4'', ''SNOW.mp4.supplemental-metadata(1).json''] \<longrightarrow>
        andThen (tryCatch (prefixJsonScan env dir ''SNOW'')) rest = rest)"
proof (intro conjI impI)
  assume "prefixJsonLoop env dir stem files = Some p"
  from prefixJsonLoop_Some [OF this] obtain entry where e: "entry \<in> set files"
    "p = resolve env dir entry" "startsWith entry stem" "endsWith entry ''.json''"
    "hasCounterSuffix entry = hasCounter stem"
    by blast
  from e(5) have "(\<exists>base ds. entry = base @ ''('' @ ds @ '').json'' \<and> ds \<noteq> [] \<and> list_all isDigit ds)
               = (\<exists>base ds. stem = base @ ''('' @ ds @ '')'' \<and> ds \<noteq> [] \<and> list_all isDigit ds)"
    unfolding hasCounterSuffix_iff hasCounter_iff .
  with e(1-4) show "\<exists>entry\<in>set files.
          p = resolve env dir entry \<and> startsWith entry stem \<and> endsWith entry ''.json''
          \<and> ((\<exists>base ds. entry = base @ ''('' @ ds @ '').json'' \<and> ds \<noteq> [] \<and> list_all isDigit ds)
               = (\<exists>base ds. stem = base @ ''('' @ ds @ '')'' \<and> ds \<noteq> [] \<and> list_all isDigit ds))"
    by blast
next
  show "prefixJsonLoop env dir ''SNOW'' (xs @ ''SNOW.mp4.supplemental-metadata(1).json'' # ys)
       = prefixJsonLoop env dir ''SNOW'' (xs @ ys)"
    using hasCounterSuffix_snow by (intro prefixJsonLoop_skip) blast
next
  assume "readdirSync env dir = Inr [''SNOW.mp4'', ''SNOW.mp4.supplemental-metadata(1).json'']"
  then have "tryCatch (prefixJsonScan env dir ''SNOW'') = Inr None"
    by (simp only: prefixJsonScan_def prefixJsonLoop_snow_only tryCatch_def sum.case)
  then show "andThen (tryCatch (prefixJsonScan env dir ''SNOW'')) rest = rest"
    by (simp only: andThen_fell_through)
qed

theorem prefix_json_scan_counter_parity_witness:
  "prefixJsonLoop (posixNode ''/d'' True [''a(1).jpg'', ''a(1)x.json'', ''a(1).jpg(2).json''])
     ''/d'' ''a(1)'' [''a(1).jpg'', ''a(1)x.json'', ''a(1).jpg(2).json'']
   = Some ''/d/a(1).jpg(2).json''
   \<and> (\<exists>entry\<in>set [''a(1).jpg'', ''a(1)x.json'', ''a(1).jpg(2).json''].
         ''/d/a(1).jpg(2).json'' = posixResolve ''/d'' entry
         \<and> (\<exists>base ds. entry = base @ ''('' @ ds @ '').json'' \<and> ds \<noteq> [] \<and> list_all isDigit ds))
   \<and> getCompanionJsonPathForMediaFile
       (posixNode ''/d'' True [''SNOW.mp4'', ''SNOW.mp4.supplemental-metadata(1).json''])
       ''/d/SNOW.mp4''
     = Inr None
   \<and> getCompanionJsonPathForMediaFile
       (posixNode ''/d'' True [''SNOW.mp4'', ''SNOW.mp4.supplemental-metadata(1).json'', ''SN.json''])
       ''/d/SNOW.mp4''
     = Inr (Some ''/d/SN.json'')"
proof -
  let ?files = "[''a(1).jpg'', ''a(1)x.json'', ''a(1).jpg(2).json'']"
  let ?env = "posixNode ''/d'' True ?files"
  let ?snow = "posixNode ''/d'' True [''SNOW.mp4'', ''SNOW.mp4.supplemental-metadata(1).json'']"
  have run: "prefixJsonLoop ?env ''/d'' ''a(1)'' ?files = Some ''/d/a(1).jpg(2).json''"
    by code_simp
  have stem: "\<exists>base ds. ''a(1)'' = base @ ''('' @ ds @ '')'' \<and> ds \<noteq> [] \<and> list_all isDigit ds"
    by (intro exI [of _ "''a''"] exI [of _ "''1''"]) (simp add: isDigit_def)
  have res: "resolve ?env = posixResolve"
    by (simp add: posixNode_def)
  have ls: "readdirSync ?snow ''/d'' = Inr [''SNOW.mp4'', ''SNOW.mp4.supplemental-metadata(1).json'']"
    by (simp add: posixNode_def)
  note inst = prefix_json_scan_counter_parity
    [of ?env "''/d''" "''a(1)''" ?files "''/d/a(1).jpg(2).json''" "[]" "[]" "Inr None"]
  from inst run stem have "\<exists>entry\<in>set ?files.
         ''/d/a(1).jpg(2).json'' = posixResolve ''/d'' entry
         \<and> (\<exists>base ds. entry = base @ ''('' @ ds @ '').json'' \<and> ds \<noteq> [] \<and> list_all isDigit ds)"
    unfolding res by blast
  moreover have "getCompanionJsonPathForMediaFile ?snow ''/d/SNOW.mp4'' = Inr None"
    by code_simp
  moreover have "getCompanionJsonPathForMediaFile
       (posixNode ''/d'' True [''SNOW.mp4'', ''SNOW.mp4.supplemental-metadata(1).json'', ''SN.json''])
       ''/d/SNOW.mp4'' = Inr (Some ''/d/SN.json'')"
    by code_simp
  ultimately show ?thesis
    using run by blast
qed

section \<open>The video files\<close>

lemma potentialJsonFileNames_img:
  "potentialJsonFileNames ''IMG_0201'' ''.MP4'' =
     [''IMG_0201.json'', ''IMG_0201.MP4.json'', ''IMG_0201.MP4.supplemental-metadata.json'']"
  by code_simp

lemma stripEdited_img: "stripEdited ''IMG_0201'' = ''IMG_0201''"
  by code_simp

lemma video_MP4: "toLowerCase ''.MP4'' \<in> set videoExtensions"
  by code_simp

lemma imageExtensions_jpg_first: "\<exists>rest. imageExtensions = ''.jpg'' # rest"
  by (simp add: imageExtensions_def)

lemma counterIndex_img: "counterIndex ''IMG_0201'' = None"
  by code_simp

lemma sidecar_img_accepted:
  "startsWith ''IMG_0201.jpg.supplemental-metadata.json'' ''IMG_0201''
   \<and> endsWith ''IMG_0201.jpg.supplemental-metadata.json'' ''.supplemental-metadata.json''"
  by code_simp

lemma supplementalLoop_skip:
  assumes "\<forall>entry\<in>set before.
      \<not> (startsWith entry stem \<and> endsWith entry ''.supplemental-metadata.json''
           \<and> existsSync env (resolve env dir entry))"
  shows "supplementalLoop env dir stem (before @ rest) = supplementalLoop env dir stem rest"
  using assms by (induction before) (auto simp: Let_def)

lemma direct_img_absent:
  assumes "\<not> existsSync env (resolve env dir ''IMG_0201.json'')"
    and "\<not> existsSync env (resolve env dir ''IMG_0201.MP4.json'')"
    and "\<not> existsSync env (resolve env dir ''IMG_0201.MP4.supplemental-metadata.json'')"
  shows "returnFirstExisting env dir (potentialJsonFileNames ''IMG_0201'' ''.MP4'') = None"
  unfolding potentialJsonFileNames_img
  by (simp only: returnFirstExisting.simps Let_def assms if_False)

text \<open>
  \<open>IMG_0201.MP4\<close> in a directory that can be listed: the scan for
  \<open>.supplemental-metadata.json\<close> reaches the sidecar of the image before the fallback
  to the image is tried.
\<close>

lemma resolveFrom_img_listed:
  assumes absent: "\<not> existsSync env (resolve env dir ''IMG_0201.json'')"
      "\<not> existsSync env (resolve env dir ''IMG_0201.MP4.json'')"
      "\<not> existsSync env (resolve env dir ''IMG_0201.MP4.supplemental-metadata.json'')"
    and sidecar: "existsSync env (resolve env dir ''IMG_0201.jpg.supplemental-metadata.json'')"
    and listed: "readdirSync env dir
                   = Inr (before @ ''IMG_0201.jpg.supplemental-metadata.json'' # after)"
    and first: "\<forall>entry\<in>set before.
      \<not> (startsWith entry ''IMG_0201'' \<and> endsWith entry ''.supplemental-metadata.json''
           \<and> existsSync env (resolve env dir entry))"
  shows "resolveFrom env dir ''.MP4'' ''IMG_0201''
           = Inr (Some (resolve env dir ''IMG_0201.jpg.supplemental-metadata.json''))"
proof -
  have "supplementalLoop env dir ''IMG_0201''
          (''IMG_0201.jpg.supplemental-metadata.json'' # after)
        = Some (resolve env dir ''IMG_0201.jpg.supplemental-metadata.json'')"
    using sidecar sidecar_img_accepted
    by (simp only: supplementalLoop.simps Let_def if_True simp_thms)
  then have "supplementalLoop env dir ''IMG_0201''
          (before @ ''IMG_0201.jpg.supplemental-metadata.json'' # after)
        = Some (resolve env dir ''IMG_0201.jpg.supplemental-metadata.json'')"
    by (simp only: supplementalLoop_skip [OF first])
  then have s3: "tryCatch (supplementalScan env dir ''IMG_0201'')
        = Inr (Some (resolve env dir ''IMG_0201.jpg.supplemental-metadata.json''))"
    by (simp only: supplementalScan_def listed tryCatch_def sum.case)
  show ?thesis
    unfolding resolveFrom_def direct_img_absent [OF absent] s3
    by (simp only: andThen_fell_through andThen_returned)
qed

text \<open>
  \<open>IMG_0201.MP4\<close> in a directory that cannot be listed: the fallback to the image
  \<open>IMG_0201.jpg\<close> tries \<open>IMG_0201.jpg.json\<close> and then the sidecar.
\<close>

lemma resolveFrom_img_unlisted:
  assumes absent: "\<not> existsSync env (resolve env dir ''IMG_0201.json'')"
      "\<not> existsSync env (resolve env dir ''IMG_0201.MP4.json'')"
      "\<not> existsSync env (resolve env dir ''IMG_0201.MP4.supplemental-metadata.json'')"
    and image: "existsSync env (resolve env dir ''IMG_0201.jpg'')"
    and sidecar: "existsSync env (resolve env dir ''IMG_0201.jpg.supplemental-metadata.json'')"
    and unlisted: "readdirSync env dir = Inl e"
    and plain: "\<not> existsSync env (resolve env dir ''IMG_0201.jpg.json'')"
  shows "resolveFrom env dir ''.MP4'' ''IMG_0201''
           = Inr (Some (resolve env dir ''IMG_0201.jpg.supplemental-metadata.json''))"
proof -
  have scans: "tryCatch (supplementalScan env dir ''IMG_0201'') = Inr None"
    "tryCatch (prefixJsonScan env dir ''IMG_0201'') = Inr None"
    "tryCatch (reverseTruncationScan env dir ''IMG_0201'') = Inr None"
    by (simp_all only: supplementalScan_def prefixJsonScan_def reverseTruncationScan_def
          unlisted tryCatch_def sum.case)
  have "returnFirstExisting env dir
          [''IMG_0201'' @ ''.jpg'' @ ''.json'', ''IMG_0201'' @ ''.jpg'' @ ''.supplemental-metadata.json'']
        = Some (resolve env dir ''IMG_0201.jpg.supplemental-metadata.json'')"
    using plain sidecar by (simp add: Let_def)
  moreover have "existsSync env (resolve env dir (''IMG_0201'' @ ''.jpg''))"
    using image by simp
  ultimately have sc: "sameCounterCase env dir ''IMG_0201'' ''.jpg''
      = Some (resolve env dir ''IMG_0201.jpg.supplemental-metadata.json'')"
    by (simp only: sameCounterCase_def counterIndex_img Let_def if_True option.case)
  obtain rest where r: "imageExtensions = ''.jpg'' # rest"
    using imageExtensions_jpg_first by blast
  have "imageLoop env dir ''IMG_0201'' imageExtensions
      = Some (resolve env dir ''IMG_0201.jpg.supplemental-metadata.json'')"
    by (simp only: r imageLoop.simps sc option.case)
  then have s6: "crossMediaFallback env dir ''.MP4'' ''IMG_0201''
      = Some (resolve env dir ''IMG_0201.jpg.supplemental-metadata.json'')"
    using video_MP4 by (simp only: crossMediaFallback_def if_True)
  show ?thesis
    unfolding resolveFrom_def direct_img_absent [OF absent] scans s6
    by (simp only: andThen_fell_through andThen_returned)
qed

text \<open>
  C5, amended. The fallback to the image of the same name does nothing unless the
  extension, in lower case, is one of the video extensions. For \<open>IMG_0201.MP4\<close> with no
  sidecar named after the video, and with \<open>IMG_0201.jpg\<close> and
  \<open>IMG_0201.jpg.supplemental-metadata.json\<close> in the directory, the resolver returns the path
  of \<open>IMG_0201.jpg.supplemental-metadata.json\<close> when the listing of the directory holds
  that sidecar with no existing entry in front of it that starts with \<open>IMG_0201\<close> and
  ends in \<open>.supplemental-metadata.json\<close>, and also when the directory cannot be listed
  and \<open>IMG_0201.jpg.json\<close> does not exist.
\<close>

theorem cross_media_fallback_videos_only:
  "(toLowerCase ext \<notin> set videoExtensions \<longrightarrow> crossMediaFallback env dir ext stem = None)
   \<and> toLowerCase ''.MP4'' \<in> set videoExtensions
   \<and> (extname env mediaFilePath = ''.MP4''
        \<and> basename env mediaFilePath ''.MP4'' = ''IMG_0201''
        \<and> \<not> existsSync env (resolve env (dirname env mediaFilePath) ''IMG_0201.json'')
        \<and> \<not> existsSync env (resolve env (dirname env mediaFilePath) ''IMG_0201.MP4.json'')
        \<and> \<not> existsSync env (resolve env (dirname env mediaFilePath)
                ''IMG_0201.MP4.supplemental-metadata.json'')
        \<and> existsSync env (resolve env (dirname env mediaFilePath) ''IMG_0201.jpg'')
        \<and> existsSync env (resolve env (dirname env mediaFilePath)
              ''IMG_0201.jpg.supplemental-metadata.json'')
        \<and> ((readdirSync env (dirname env mediaFilePath)
               = Inr (before @ ''IMG_0201.jpg.supplemental-metadata.json'' # after)
             \<and> (\<forall>entry\<in>set before.
                  \<not> (startsWith entry ''IMG_0201''
                      \<and> endsWith entry ''.supplemental-metadata.json''
                      \<and> existsSync env (resolve env (dirname env mediaFilePath) entry))))
            \<or> (readdirSync env (dirname env mediaFilePath) = Inl e
                \<and> \<not> existsSync env (resolve env (dirname env mediaFilePath)
                        ''IMG_0201.jpg.json''))) \<longrightarrow>
      getCompanionJsonPathForMediaFile env mediaFilePath =
        Inr (Some (resolve env (dirname env mediaFilePath)
                     ''IMG_0201.jpg.supplemental-metadata.json'')))"
proof (intro conjI impI)
  assume "toLowerCase ext \<notin> set videoExtensions"
  then show "crossMediaFallback env dir ext stem = None"
    by (simp add: crossMediaFallback_def)
next
  show "toLowerCase ''.MP4'' \<in> set videoExtensions"
    by (rule video_MP4)
next
  let ?dir = "dirname env mediaFilePath"
  assume h: "extname env mediaFilePath = ''.MP4''
        \<and> basename env mediaFilePath ''.MP4'' = ''IMG_0201''
        \<and> \<not> existsSync env (resolve env ?dir ''IMG_0201.json'')
        \<and> \<not> existsSync env (resolve env ?dir ''IMG_0201.MP4.json'')
        \<and> \<not> existsSync env (resolve env ?dir ''IMG_0201.MP4.supplemental-metadata.json'')
        \<and> existsSync env (resolve env ?dir ''IMG_0201.jpg'')
        \<and> existsSync env (resolve env ?dir ''IMG_0201.jpg.supplemental-metadata.json'')
        \<and> ((readdirSync env ?dir
               = Inr (before @ ''IMG_0201.jpg.supplemental-metadata.json'' # after)
             \<and> (\<forall>entry\<in>set before.
                  \<not> (startsWith entry ''IMG_0201''
                      \<and> endsWith entry ''.supplemental-metadata.json''
                      \<and> existsSync env (resolve env ?dir entry))))
            \<or> (readdirSync env ?dir = Inl e
                \<and> \<not> existsSync env (resolve env ?dir ''IMG_0201.jpg.json'')))"
  then have a: "\<not> existsSync env (resolve env ?dir ''IMG_0201.json'')"
      "\<not> existsSync env (resolve env ?dir ''IMG_0201.MP4.json'')"
      "\<not> existsSync env (resolve env ?dir ''IMG_0201.MP4.supplemental-metadata.json'')"
    and i: "existsSync env (resolve env ?dir ''IMG_0201.jpg'')"
    and s: "existsSync env (resolve env ?dir ''IMG_0201.jpg.supplemental-metadata.json'')"
    by simp_all
  from h consider
      (listed) "readdirSync env ?dir
               = Inr (before @ ''IMG_0201.jpg.supplemental-metadata.json'' # after)"
        "\<forall>entry\<in>set before.
                  \<not> (startsWith entry ''IMG_0201''
                      \<and> endsWith entry ''.supplemental-metadata.json''
                      \<and> existsSync env (resolve env ?dir entry))"
    | (unlisted) "readdirSync env ?dir = Inl e"
        "\<not> existsSync env (resolve env ?dir ''IMG_0201.jpg.json'')"
    by (elim conjE disjE) blast+
  then have "resolveFrom env ?dir ''.MP4'' ''IMG_0201''
      = Inr (Some (resolve env ?dir ''IMG_0201.jpg.supplemental-metadata.json''))"
  proof cases
    case listed
    show ?thesis
      by (rule resolveFrom_img_listed [OF a s listed])
  next
    case unlisted
    show ?thesis
      by (rule resolveFrom_img_unlisted [OF a i s unlisted])
  qed
  then show "getCompanionJsonPathForMediaFile env mediaFilePath =
        Inr (Some (resolve env ?dir ''IMG_0201.jpg.supplemental-metadata.json''))"
    using h by (simp add: getCompanion_resolveFrom stripEdited_img)
qed

theorem cross_media_fallback_videos_only_witness:
  "toLowerCase ''.jpg'' \<notin> set videoExtensions
   \<and> crossMediaFallback
        (posixNode ''/d'' True
           [''IMG_0201.MP4'', ''IMG_0201.jpg'', ''IMG_0201.jpg.supplemental-metadata.json''])
        ''/d'' ''.jpg'' ''IMG_0201'' = None
   \<and> getCompanionJsonPathForMediaFile
        (posixNode ''/d'' True
           [''IMG_0201.MP4'', ''OTHER.jpg.json'', ''IMG_0201.jpg'',
            ''IMG_0201.jpg.supplemental-metadata.json''])
        ''/d/IMG_0201.MP4''
      = Inr (Some ''/d/IMG_0201.jpg.supplemental-metadata.json'')
   \<and> getCompanionJsonPathForMediaFile
        (posixNode ''/d'' False
           [''IMG_0201.MP4'', ''IMG_0201.jpg'', ''IMG_0201.jpg.supplemental-metadata.json''])
        ''/d/IMG_0201.MP4''
      = Inr (Some ''/d/IMG_0201.jpg.supplemental-metadata.json'')"
proof -
  let ?listed = "posixNode ''/d'' True
    [''IMG_0201.MP4'', ''OTHER.jpg.json'', ''IMG_0201.jpg'',
     ''IMG_0201.jpg.supplemental-metadata.json'']"
  let ?unlisted = "posixNode ''/d'' False
    [''IMG_0201.MP4'', ''IMG_0201.jpg'', ''IMG_0201.jpg.supplemental-metadata.json'']"
  let ?plain = "posixNode ''/d'' True
    [''IMG_0201.MP4'', ''IMG_0201.jpg'', ''IMG_0201.jpg.supplemental-metadata.json'']"
  let ?before = "[''IMG_0201.MP4'', ''OTHER.jpg.json'', ''IMG_0201.jpg'']"
  have nv: "toLowerCase ''.jpg'' \<notin> set videoExtensions"
    by code_simp
  have hl: "extname ?listed ''/d/IMG_0201.MP4'' = ''.MP4''
        \<and> basename ?listed ''/d/IMG_0201.MP4'' ''.MP4'' = ''IMG_0201''
        \<and> \<not> existsSync ?listed (resolve ?listed (dirname ?listed ''/d/IMG_0201.MP4'') ''IMG_0201.json'')
        \<and> \<not> existsSync ?listed (resolve ?listed (dirname ?listed ''/d/IMG_0201.MP4'') ''IMG_0201.MP4.json'')
        \<and> \<not> existsSync ?listed (resolve ?listed (dirname ?listed ''/d/IMG_0201.MP4'')
                ''IMG_0201.MP4.supplemental-metadata.json'')
        \<and> existsSync ?listed (resolve ?listed (dirname ?listed ''/d/IMG_0201.MP4'') ''IMG_0201.jpg'')
        \<and> existsSync ?listed (resolve ?listed (dirname ?listed ''/d/IMG_0201.MP4'')
              ''IMG_0201.jpg.supplemental-metadata.json'')
        \<and> ((readdirSync ?listed (dirname ?listed ''/d/IMG_0201.MP4'')
               = Inr (?before @ ''IMG_0201.jpg.supplemental-metadata.json'' # [])
             \<and> (\<forall>entry\<in>set ?before.
                  \<not> (startsWith entry ''IMG_0201''
                      \<and> endsWith entry ''.supplemental-metadata.json''
                      \<and> existsSync ?listed (resolve ?listed (dirname ?listed ''/d/IMG_0201.MP4'') entry))))
            \<or> (readdirSync ?listed (dirname ?listed ''/d/IMG_0201.MP4'') = Inl FsError
                \<and> \<not> existsSync ?listed (resolve ?listed (dirname ?listed ''/d/IMG_0201.MP4'')
                        ''IMG_0201.jpg.json'')))"
    by code_simp
  have hu: "extname ?unlisted ''/d/IMG_0201.MP4'' = ''.MP4''
        \<and> basename ?unlisted ''/d/IMG_0201.MP4'' ''.MP4'' = ''IMG_0201''
        \<and> \<not> existsSync ?unlisted (resolve ?unlisted (dirname ?unlisted ''/d/IMG_0201.MP4'') ''IMG_0201.json'')
        \<and> \<not> existsSync ?unlisted (resolve ?unlisted (dirname ?unlisted ''/d/IMG_0201.MP4'') ''IMG_0201.MP4.json'')
        \<and> \<not> existsSync ?unlisted (resolve ?unlisted (dirname ?unlisted ''/d/IMG_0201.MP4'')
                ''IMG_0201.MP4.supplemental-metadata.json'')
        \<and> existsSync ?unlisted (resolve ?unlisted (dirname ?unlisted ''/d/IMG_0201.MP4'') ''IMG_0201.jpg'')
        \<and> existsSync ?unlisted (resolve ?unlisted (dirname ?unlisted ''/d/IMG_0201.MP4'')
              ''IMG_0201.jpg.supplemental-metadata.json'')
        \<and> ((readdirSync ?unlisted (dirname ?unlisted ''/d/IMG_0201.MP4'')
               = Inr ([] @ ''IMG_0201.jpg.supplemental-metadata.json'' # [])
             \<and> (\<forall>entry\<in>set [].
                  \<not> (startsWith entry ''IMG_0201''
                      \<and> endsWith entry ''.supplemental-metadata.json''
                      \<and> existsSync ?unlisted (resolve ?unlisted (dirname ?unlisted ''/d/IMG_0201.MP4'') entry))))
            \<or> (readdirSync ?unlisted (dirname ?unlisted ''/d/IMG_0201.MP4'') = Inl FsError
                \<and> \<not> existsSync ?unlisted (resolve ?unlisted (dirname ?unlisted ''/d/IMG_0201.MP4'')
                        ''IMG_0201.jpg.json'')))"
    by code_simp
  have rl: "resolve ?listed (dirname ?listed ''/d/IMG_0201.MP4'')
      ''IMG_0201.jpg.supplemental-metadata.json'' = ''/d/IMG_0201.jpg.supplemental-metadata.json''"
    by code_simp
  have ru: "resolve ?unlisted (dirname ?unlisted ''/d/IMG_0201.MP4'')
      ''IMG_0201.jpg.supplemental-metadata.json'' = ''/d/IMG_0201.jpg.supplemental-metadata.json''"
    by code_simp
  note none = cross_media_fallback_videos_only
    [where ext = "''.jpg''" and env = ?plain and dir = "''/d''" and stem = "''IMG_0201''",
     THEN conjunct1, THEN mp, OF nv]
  note listed = cross_media_fallback_videos_only
    [where env = ?listed and mediaFilePath = "''/d/IMG_0201.MP4''" and before = ?before
       and after = "[]" and e = FsError,
     THEN conjunct2, THEN conjunct2, THEN mp, OF hl, unfolded rl]
  note unlisted = cross_media_fallback_videos_only
    [where env = ?unlisted and mediaFilePath = "''/d/IMG_0201.MP4''" and before = "[]"
       and after = "[]" and e = FsError,
     THEN conjunct2, THEN conjunct2, THEN mp, OF hu, unfolded ru]
  from nv none listed unlisted show ?thesis
    by (intro conjI)
qed

text \<open>
  The wording of the specification fails here. With the sidecar of \<open>IMG_0201.HEIC\<close> in
  the directory too, and listed first, no sidecar is named after the video, the image
  \<open>IMG_0201.jpg\<close> and its sidecar are there, and the resolver returns the sidecar of the
  HEIC file, which the scan for \<open>.supplemental-metadata.json\<close> finds first. And in a
  directory that cannot be listed and holds \<open>IMG_0201.jpg.json\<close> as well, the fallback to
  the image returns that file, which it tries first.
\<close>

theorem cross_media_fallback_counterexample:
  "getCompanionJsonPathForMediaFile
     (posixNode ''/d'' True
        [''IMG_0201.HEIC.supplemental-metadata.json'', ''IMG_0201.MP4'', ''IMG_0201.jpg'',
         ''IMG_0201.jpg.supplemental-metadata.json''])
     ''/d/IMG_0201.MP4''
   = Inr (Some ''/d/IMG_0201.HEIC.supplemental-metadata.json'')
   \<and> existsSync
        (posixNode ''/d'' True
           [''IMG_0201.HEIC.supplemental-metadata.json'', ''IMG_0201.MP4'', ''IMG_0201.jpg'',
            ''IMG_0201.jpg.supplemental-metadata.json''])
        ''/d/IMG_0201.jpg''
   \<and> existsSync
        (posixNode ''/d'' True
           [''IMG_0201.HEIC.supplemental-metadata.json'', ''IMG_0201.MP4'', ''IMG_0201.jpg'',
            ''IMG_0201.jpg.supplemental-metadata.json''])
        ''/d/IMG_0201.jpg.supplemental-metadata.json''
   \<and> \<not> existsSync
        (posixNode ''/d'' True
           [''IMG_0201.HEIC.supplemental-metadata.json'', ''IMG_0201.MP4'', ''IMG_0201.jpg'',
            ''IMG_0201.jpg.supplemental-metadata.json''])
        ''/d/IMG_0201.json''
   \<and> \<not> existsSync
        (posixNode ''/d'' True
           [''IMG_0201.HEIC.supplemental-metadata.json'', ''IMG_0201.MP4'', ''IMG_0201.jpg'',
            ''IMG_0201.jpg.supplemental-metadata.json''])
        ''/d/IMG_0201.MP4.json''
   \<and> \<not> existsSync
        (posixNode ''/d'' True
           [''IMG_0201.HEIC.supplemental-metadata.json'', ''IMG_0201.MP4'', ''IMG_0201.jpg'',
            ''IMG_0201.jpg.supplemental-metadata.json''])
        ''/d/IMG_0201.MP4.supplemental-metadata.json''
   \<and> getCompanionJsonPathForMediaFile
        (posixNode ''/d'' False
           [''IMG_0201.MP4'', ''IMG_0201.jpg'', ''IMG_0201.jpg.json'',
            ''IMG_0201.jpg.supplemental-metadata.json''])
        ''/d/IMG_0201.MP4''
      = Inr (Some ''/d/IMG_0201.jpg.json'')"
  by code_simp

section \<open>The edited suffix\<close>

lemma asciiLower_lowerChar:
  assumes "(of_char (lowerChar c) :: nat) < 128"
  shows "asciiLower c = lowerChar c"
proof (cases "192 \<le> (of_char c :: nat) \<and> (of_char c :: nat) \<le> 222 \<and> (of_char c :: nat) \<noteq> 215")
  case True
  then have "lowerChar c = char_of ((of_char c :: nat) + 32)"
    by (simp add: lowerChar_def Let_def)
  moreover have "((of_char c :: nat) + 32) mod 256 = of_char c + 32"
    using True by simp
  ultimately have "(of_char (lowerChar c) :: nat) = of_char c + 32"
    by simp
  with assms True show ?thesis by simp
next
  case False
  then show ?thesis
    by (auto simp: lowerChar_def asciiLower_def Let_def)
qed

lemma map_asciiLower_toLowerCase:
  "list_all (\<lambda>c. (of_char c :: nat) < 128) (toLowerCase s) \<Longrightarrow> map asciiLower s = toLowerCase s"
  by (induction s) (simp_all add: toLowerCase_def asciiLower_lowerChar)

lemma edited_ascii: "list_all (\<lambda>c. (of_char c :: nat) < 128) ''-edited''"
  by simp

lemma stripEdited_suffix:
  assumes "map asciiLower suffix = ''-edited''"
  shows "stripEdited (stem @ suffix) = stem"
proof -
  have l: "length suffix = 7"
    using arg_cong [OF assms, of length] by simp
  then have "endsWithEdited (stem @ suffix)"
    using assms by (simp add: endsWithEdited_def)
  then show ?thesis
    using l by (simp add: stripEdited_def sliceEnd_def)
qed

text \<open>
  C6. A stem that ends in \<open>-edited\<close>, in any case of its letters, loses exactly that
  suffix, whatever stands in front of it: \<open>foo-edited-edited\<close> becomes \<open>foo-edited\<close>. The
  resolver strips it from the base name before anything else looks at the stem.
\<close>

theorem strips_one_edited_suffix:
  "(toLowerCase suffix = ''-edited'' \<longrightarrow> stripEdited (stem @ suffix) = stem)
   \<and> stripEdited ''foo-edited-edited'' = ''foo-edited''
   \<and> getCompanionJsonPathForMediaFile env mediaFilePath =
       resolveFrom env (dirname env mediaFilePath) (extname env mediaFilePath)
         (stripEdited (basename env mediaFilePath (extname env mediaFilePath)))"
proof (intro conjI impI)
  assume t: "toLowerCase suffix = ''-edited''"
  then have "map asciiLower suffix = toLowerCase suffix"
    using edited_ascii by (intro map_asciiLower_toLowerCase) (simp only:)
  with t show "stripEdited (stem @ suffix) = stem"
    by (simp only: stripEdited_suffix)
next
  show "stripEdited ''foo-edited-edited'' = ''foo-edited''"
    by code_simp
next
  show "getCompanionJsonPathForMediaFile env mediaFilePath =
       resolveFrom env (dirname env mediaFilePath) (extname env mediaFilePath)
         (stripEdited (basename env mediaFilePath (extname env mediaFilePath)))"
    by (rule getCompanion_resolveFrom)
qed

theorem strips_one_edited_suffix_witness:
  "toLowerCase ''-EdiTed'' = ''-edited''
   \<and> stripEdited ''IMG_0001-edited-EdiTed'' = ''IMG_0001-edited''
   \<and> getCompanionJsonPathForMediaFile
       (posixNode ''/d'' True [''foo-edited.jpg'', ''foo.jpg'', ''foo.jpg.json''])
       ''/d/foo-edited.jpg''
     = Inr (Some ''/d/foo.jpg.json'')"
proof -
  have t: "toLowerCase ''-EdiTed'' = ''-edited''"
    by code_simp
  from strips_one_edited_suffix [of "''-EdiTed''" "''IMG_0001-edited''"] t
  have "stripEdited (''IMG_0001-edited'' @ ''-EdiTed'') = ''IMG_0001-edited''"
    by blast
  then have "stripEdited ''IMG_0001-edited-EdiTed'' = ''IMG_0001-edited''"
    by simp
  moreover have "getCompanionJsonPathForMediaFile
       (posixNode ''/d'' True [''foo-edited.jpg'', ''foo.jpg'', ''foo.jpg.json''])
       ''/d/foo-edited.jpg'' = Inr (Some ''/d/foo.jpg.json'')"
    by code_simp
  ultimately show ?thesis
    using t by (intro conjI)
qed

section \<open>A listing that cannot be read\<close>

lemma tryCatch_returns: "\<exists>r. tryCatch s = Inr r"
  by (cases s) (simp_all add: tryCatch_def)

lemma andThen_returns:
  "\<exists>r. s = Inr r \<Longrightarrow> \<exists>r. t = Inr r \<Longrightarrow> \<exists>r. andThen s t = Inr r"
  by (auto simp: andThen_def split: option.split)

lemma resolveFrom_returns: "\<exists>r. resolveFrom env dir ext stem = Inr r"
  unfolding resolveFrom_def
  by (intro andThen_returns tryCatch_returns) blast+

lemma scan_unreadable:
  assumes "readdirSync env dir = Inl e"
  shows "tryCatch (supplementalScan env dir stem) = Inr None"
    and "tryCatch (prefixJsonScan env dir stem) = Inr None"
    and "tryCatch (reverseTruncationScan env dir stem) = Inr None"
  using assms
  by (simp_all add: tryCatch_def supplementalScan_def prefixJsonScan_def
        reverseTruncationScan_def)

text \<open>
  C7. The resolver never raises: its result is always a path or null. When the listing
  of the directory cannot be read, each of the three scans adds nothing and hands over
  to whatever follows it, and the resolver answers from the direct names and the image
  of the same name alone.
\<close>

theorem unreadable_listing_is_absorbed:
  "(\<exists>r. getCompanionJsonPathForMediaFile env mediaFilePath = Inr r)
   \<and> (readdirSync env dir = Inl e \<longrightarrow>
        andThen (tryCatch (supplementalScan env dir stem)) rest = rest
        \<and> andThen (tryCatch (prefixJsonScan env dir stem)) rest = rest
        \<and> andThen (tryCatch (reverseTruncationScan env dir stem)) rest = rest
        \<and> resolveFrom env dir ext stem =
            andThen (Inr (returnFirstExisting env dir (potentialJsonFileNames stem ext)))
              (Inr (crossMediaFallback env dir ext stem)))"
proof (intro conjI impI)
  show "\<exists>r. getCompanionJsonPathForMediaFile env mediaFilePath = Inr r"
    by (simp add: getCompanion_resolveFrom resolveFrom_returns)
next
  assume u: "readdirSync env dir = Inl e"
  show "andThen (tryCatch (supplementalScan env dir stem)) rest = rest"
    by (simp only: scan_unreadable [OF u] andThen_fell_through)
  show "andThen (tryCatch (prefixJsonScan env dir stem)) rest = rest"
    by (simp only: scan_unreadable [OF u] andThen_fell_through)
  show "andThen (tryCatch (reverseTruncationScan env dir stem)) rest = rest"
    by (simp only: scan_unreadable [OF u] andThen_fell_through)
  show "resolveFrom env dir ext stem =
            andThen (Inr (returnFirstExisting env dir (potentialJsonFileNames stem ext)))
              (Inr (crossMediaFallback env dir ext stem))"
    unfolding resolveFrom_def
    by (simp only: scan_unreadable [OF u] andThen_fell_through)
       (simp add: andThen_def split: option.split)
qed

theorem unreadable_listing_is_absorbed_witness:
  "readdirSync (posixNode ''/d'' False [''a.mp4'', ''a.jpg'', ''a.jpg.json'', ''a.mp4.supplemental-metadata(1).json'']) ''/d''
     = Inl FsError
   \<and> getCompanionJsonPathForMediaFile
       (posixNode ''/d'' False [''a.mp4'', ''a.jpg'', ''a.jpg.json'', ''a.mp4.supplemental-metadata(1).json''])
       ''/d/a.mp4''
     = Inr (Some ''/d/a.jpg.json'')
   \<and> resolveFrom
       (posixNode ''/d'' False [''a.mp4'', ''a.jpg'', ''a.jpg.json'', ''a.mp4.supplemental-metadata(1).json''])
       ''/d'' ''.mp4'' ''a''
     = Inr (Some ''/d/a.jpg.json'')"
proof -
  let ?env = "posixNode ''/d'' False
    [''a.mp4'', ''a.jpg'', ''a.jpg.json'', ''a.mp4.supplemental-metadata(1).json'']"
  have u: "readdirSync ?env ''/d'' = Inl FsError"
    by (simp add: posixNode_def)
  have c: "andThen (Inr (returnFirstExisting ?env ''/d'' (potentialJsonFileNames ''a'' ''.mp4'')))
              (Inr (crossMediaFallback ?env ''/d'' ''.mp4'' ''a'')) = Inr (Some ''/d/a.jpg.json'')"
    by code_simp
  have g: "getCompanionJsonPathForMediaFile ?env ''/d/a.mp4'' = Inr (Some ''/d/a.jpg.json'')"
    by code_simp
  from unreadable_listing_is_absorbed
    [where env = ?env and dir = "''/d''" and e = FsError and ext = "''.mp4''" and stem = "''a''"
       and mediaFilePath = "''/d/a.mp4''" and rest = "Inr None"] u
  have "resolveFrom ?env ''/d'' ''.mp4'' ''a'' =
      andThen (Inr (returnFirstExisting ?env ''/d'' (potentialJsonFileNames ''a'' ''.mp4'')))
              (Inr (crossMediaFallback ?env ''/d'' ''.mp4'' ''a''))"
    by blast
  with c have "resolveFrom ?env ''/d'' ''.mp4'' ''a'' = Inr (Some ''/d/a.jpg.json'')"
    by (rule_tac trans)
  with u g show ?thesis
    by (intro conjI)
qed

section \<open>Writing the date and the directory of failures\<close>

lemma updateExifMetadata_failed:
  assumes "doesFileSupportExif io (outputFilePath fileInfo)"
    and "writeAndCleanUp env io fileInfo timeTaken w = (Inl e, w1)"
  shows "updateExifMetadata env io fileInfo timeTaken errorDir w
           = copyToErrorDir env io fileInfo errorDir w1"
  using assms by (simp add: updateExifMetadata_def)

lemma writeAndCleanUp_write_failed:
  assumes "toISOString io timeTaken = Some isoString"
    and "exiftoolWrite io (outputFilePath fileInfo)
           (metadataTags (toLowerCase (extname env (outputFilePath fileInfo))) isoString) w
         = (Inl e, w1)"
  shows "writeAndCleanUp env io fileInfo timeTaken w = (Inl e, w1)"
  using assms by (simp add: writeAndCleanUp_def Let_def)

lemma writeAndCleanUp_unlink_failed:
  assumes "toISOString io timeTaken = Some isoString"
    and "exiftoolWrite io (outputFilePath fileInfo)
           (metadataTags (toLowerCase (extname env (outputFilePath fileInfo))) isoString) w
         = (Inr (), w1)"
    and "unlink io (outputFilePath fileInfo @ ''_original'') w1 = (Inl e, w2)"
  shows "writeAndCleanUp env io fileInfo timeTaken w = (Inl e, w2)"
  using assms by (simp add: writeAndCleanUp_def Let_def)

lemma copyToErrorDir_copied:
  assumes "copyFile io (outputFilePath fileInfo)
             (resolve env errorDir (mediaFileName fileInfo)) w1 = (Inr (), w2)"
  shows "copyToErrorDir env io fileInfo errorDir w1 = copyCompanion env io fileInfo errorDir w2"
  using assms by (simp add: copyToErrorDir_def)

lemma copyCompanion_present:
  assumes "jsonFileExists fileInfo" "jsonFileName fileInfo = Some name" "name \<noteq> []"
    "jsonFilePath fileInfo = Some path" "path \<noteq> []"
  shows "copyCompanion env io fileInfo errorDir w
           = copyFile io path (resolve env errorDir name) w"
  using assms by (simp add: copyCompanion_def truthy_def)

lemma copyCompanion_absent:
  assumes "\<not> jsonFileExists fileInfo \<or> jsonFileName fileInfo = None
             \<or> jsonFilePath fileInfo = None"
  shows "copyCompanion env io fileInfo errorDir w = (Inr (), w)"
  using assms by (auto simp: copyCompanion_def truthy_def)

lemma copyToErrorDir_not_copied:
  assumes "copyFile io (outputFilePath fileInfo)
             (resolve env errorDir (mediaFileName fileInfo)) w1 = (Inl e, w2)"
  shows "copyToErrorDir env io fileInfo errorDir w1 = (Inl e, w2)"
  using assms by (simp add: copyToErrorDir_def)

text \<open>
  C8, amended. When the write of the date fails, the media file is copied into the
  directory of failures under its own name. When that copy succeeds, the companion file,
  if one was found and exists, is copied there under its own name, and the outcome of
  that copy is the outcome of the function; without a companion the function returns
  normally after the first copy. The failure of the write never leaves the function;
  the failure of a copy does.
\<close>

theorem failed_write_is_quarantined:
  assumes "doesFileSupportExif io (outputFilePath fileInfo)"
    and "toISOString io timeTaken = Some isoString"
    and "exiftoolWrite io (outputFilePath fileInfo)
           (metadataTags (toLowerCase (extname env (outputFilePath fileInfo))) isoString) w
         = (Inl e, w1)"
  shows "(copyFile io (outputFilePath fileInfo)
             (resolve env errorDir (mediaFileName fileInfo)) w1 = (Inr (), w2)
            \<and> jsonFileExists fileInfo \<and> jsonFileName fileInfo = Some name \<and> name \<noteq> []
            \<and> jsonFilePath fileInfo = Some path \<and> path \<noteq> [] \<longrightarrow>
           updateExifMetadata env io fileInfo timeTaken errorDir w
             = copyFile io path (resolve env errorDir name) w2)
         \<and> (copyFile io (outputFilePath fileInfo)
               (resolve env errorDir (mediaFileName fileInfo)) w1 = (Inr (), w2)
              \<and> (\<not> jsonFileExists fileInfo \<or> jsonFileName fileInfo = None
                   \<or> jsonFilePath fileInfo = None) \<longrightarrow>
             updateExifMetadata env io fileInfo timeTaken errorDir w = (Inr (), w2))
         \<and> (copyFile io (outputFilePath fileInfo)
               (resolve env errorDir (mediaFileName fileInfo)) w1 = (Inl e', w2) \<longrightarrow>
             updateExifMetadata env io fileInfo timeTaken errorDir w = (Inl e', w2))"
proof -
  have "updateExifMetadata env io fileInfo timeTaken errorDir w
      = copyToErrorDir env io fileInfo errorDir w1"
    using updateExifMetadata_failed [OF assms(1) writeAndCleanUp_write_failed [OF assms(2,3)]] .
  then show ?thesis
    by (simp add: copyToErrorDir_copied copyToErrorDir_not_copied copyCompanion_present
          copyCompanion_absent)
qed

theorem failed_write_is_quarantined_witness:
  "updateExifMetadata (posixNode ''/d'' True []) (loggingTools True False True True True)
     snowInfo ''2020-01-02T03:04:05.000Z'' ''/err'' []
   = (Inr (), [Copied ''/out/SNOW.mp4'' ''/err/SNOW.mp4'',
               Copied ''/in/SNOW.mp4.json'' ''/err/SNOW.mp4.json''])"
proof -
  let ?env = "posixNode ''/d'' True []"
  let ?io = "loggingTools True False True True True"
  let ?t = "''2020-01-02T03:04:05.000Z''"
  have 1: "doesFileSupportExif ?io (outputFilePath snowInfo)"
    by (simp add: loggingTools_def)
  have 2: "toISOString ?io ?t = Some ?t"
    by (simp add: loggingTools_def)
  have 3: "exiftoolWrite ?io (outputFilePath snowInfo)
      (metadataTags (toLowerCase (extname ?env (outputFilePath snowInfo))) ?t) []
      = (Inl ToolError, [])"
    by (simp add: loggingTools_def)
  have 4: "copyFile ?io (outputFilePath snowInfo)
      (resolve ?env ''/err'' (mediaFileName snowInfo)) []
      = (Inr (), [Copied ''/out/SNOW.mp4'' ''/err/SNOW.mp4''])"
    by code_simp
  have 5: "jsonFileExists snowInfo \<and> jsonFileName snowInfo = Some ''SNOW.mp4.json''
      \<and> ''SNOW.mp4.json'' \<noteq> [] \<and> jsonFilePath snowInfo = Some ''/in/SNOW.mp4.json''
      \<and> ''/in/SNOW.mp4.json'' \<noteq> []"
    by (simp add: snowInfo_def)
  have 6: "copyFile ?io ''/in/SNOW.mp4.json'' (resolve ?env ''/err'' ''SNOW.mp4.json'')
      [Copied ''/out/SNOW.mp4'' ''/err/SNOW.mp4'']
      = (Inr (), [Copied ''/out/SNOW.mp4'' ''/err/SNOW.mp4'',
                  Copied ''/in/SNOW.mp4.json'' ''/err/SNOW.mp4.json''])"
    by code_simp
  from failed_write_is_quarantined
    [OF 1 2 3, where errorDir = "''/err''" and name = "''SNOW.mp4.json''"
       and path = "''/in/SNOW.mp4.json''"
       and ?w2.0 = "[Copied ''/out/SNOW.mp4'' ''/err/SNOW.mp4'']"] 4 5
  have "updateExifMetadata ?env ?io snowInfo ?t ''/err'' []
      = copyFile ?io ''/in/SNOW.mp4.json'' (resolve ?env ''/err'' ''SNOW.mp4.json'')
          [Copied ''/out/SNOW.mp4'' ''/err/SNOW.mp4'']"
    by blast
  then show ?thesis
    unfolding 6 .
qed

text \<open>
  The wording of the specification fails here: the copies are made in the handler itself,
  so when the write fails and the copy into the directory of failures fails too, the
  error of the copy leaves the function.
\<close>

theorem failed_write_counterexample:
  "updateExifMetadata (posixNode ''/d'' True []) (loggingTools True False True False True)
     snowInfo ''2020-01-02T03:04:05.000Z'' ''/err'' []
   = (Inl FsError, [])
   \<and> exiftoolWrite (loggingTools True False True False True) ''/out/SNOW.mp4''
       (metadataTags ''.mp4'' ''2020-01-02T03:04:05.000Z'') []
     = (Inl ToolError, [])"
  by code_simp

text \<open>
  C10. The backup \<open>{outputFilePath}_original\<close> is deleted inside the \<open>try\<close> block: when
  the write succeeds and the deletion fails, the handler runs on the world the failed
  deletion leaves, and copies the media file and the companion file the same way as after
  a failed write.
\<close>

theorem failed_cleanup_is_quarantined:
  assumes "doesFileSupportExif io (outputFilePath fileInfo)"
    and "toISOString io timeTaken = Some isoString"
    and "exiftoolWrite io (outputFilePath fileInfo)
           (metadataTags (toLowerCase (extname env (outputFilePath fileInfo))) isoString) w
         = (Inr (), w1)"
    and "unlink io (outputFilePath fileInfo @ ''_original'') w1 = (Inl e, w2)"
  shows "updateExifMetadata env io fileInfo timeTaken errorDir w
           = copyToErrorDir env io fileInfo errorDir w2
         \<and> (copyFile io (outputFilePath fileInfo)
               (resolve env errorDir (mediaFileName fileInfo)) w2 = (Inr (), w3)
              \<and> jsonFileExists fileInfo \<and> jsonFileName fileInfo = Some name \<and> name \<noteq> []
              \<and> jsonFilePath fileInfo = Some path \<and> path \<noteq> [] \<longrightarrow>
             updateExifMetadata env io fileInfo timeTaken errorDir w
               = copyFile io path (resolve env errorDir name) w3)"
proof -
  have "updateExifMetadata env io fileInfo timeTaken errorDir w
      = copyToErrorDir env io fileInfo errorDir w2"
    using updateExifMetadata_failed [OF assms(1) writeAndCleanUp_unlink_failed [OF assms(2,3,4)]] .
  then show ?thesis
    by (simp add: copyToErrorDir_copied copyCompanion_present)
qed

theorem failed_cleanup_is_quarantined_witness:
  "exiftoolWrite (loggingTools True True False True True) ''/out/SNOW.mp4''
       (metadataTags ''.mp4'' ''2020-01-02T03:04:05.000Z'') []
     = (Inr (), [Wrote ''/out/SNOW.mp4''
                   [(DateTimeOriginal, ''2020-01-02 03:04:05.000+00:00''),
                    (CreateDate, ''2020-01-02 03:04:05.000+00:00''),
                    (MediaCreateDate, ''2020-01-02 03:04:05.000+00:00'')]])
   \<and> updateExifMetadata (posixNode ''/d'' True []) (loggingTools True True False True True)
       snowInfo ''2020-01-02T03:04:05.000Z'' ''/err'' []
     = (Inr (), [Wrote ''/out/SNOW.mp4''
                   [(DateTimeOriginal, ''2020-01-02 03:04:05.000+00:00''),
                    (CreateDate, ''2020-01-02 03:04:05.000+00:00''),
                    (MediaCreateDate, ''2020-01-02 03:04:05.000+00:00'')],
                 Copied ''/out/SNOW.mp4'' ''/err/SNOW.mp4'',
                 Copied ''/in/SNOW.mp4.json'' ''/err/SNOW.mp4.json''])"
proof -
  let ?env = "posixNode ''/d'' True []"
  let ?io = "loggingTools True True False True True"
  let ?t = "''2020-01-02T03:04:05.000Z''"
  let ?w1 = "[Wrote ''/out/SNOW.mp4''
                   [(DateTimeOriginal, ''2020-01-02 03:04:05.000+00:00''),
                    (CreateDate, ''2020-01-02 03:04:05.000+00:00''),
                    (MediaCreateDate, ''2020-01-02 03:04:05.000+00:00'')]]"
  have 0: "exiftoolWrite ?io ''/out/SNOW.mp4'' (metadataTags ''.mp4'' ?t) [] = (Inr (), ?w1)"
    by code_simp
  have 1: "doesFileSupportExif ?io (outputFilePath snowInfo)"
    by (simp add: loggingTools_def)
  have 2: "toISOString ?io ?t = Some ?t"
    by (simp add: loggingTools_def)
  have 3: "exiftoolWrite ?io (outputFilePath snowInfo)
      (metadataTags (toLowerCase (extname ?env (outputFilePath snowInfo))) ?t) []
      = (Inr (), ?w1)"
    by code_simp
  have 4: "unlink ?io (outputFilePath snowInfo @ ''_original'') ?w1 = (Inl FsError, ?w1)"
    by (simp add: loggingTools_def)
  have 5: "copyToErrorDir ?env ?io snowInfo ''/err'' ?w1
      = (Inr (), ?w1 @ [Copied ''/out/SNOW.mp4'' ''/err/SNOW.mp4'',
                        Copied ''/in/SNOW.mp4.json'' ''/err/SNOW.mp4.json''])"
    by code_simp
  from failed_cleanup_is_quarantined [OF 1 2 3 4, where errorDir = "''/err''"]
  have "updateExifMetadata ?env ?io snowInfo ?t ''/err'' []
      = copyToErrorDir ?env ?io snowInfo ''/err'' ?w1"
    by blast
  then have "updateExifMetadata ?env ?io snowInfo ?t ''/err'' []
      = (Inr (), ?w1 @ [Copied ''/out/SNOW.mp4'' ''/err/SNOW.mp4'',
                        Copied ''/in/SNOW.mp4.json'' ''/err/SNOW.mp4.json''])"
    unfolding 5 .
  with 0 show ?thesis
    by simp
qed

section \<open>The verifier\<close>

text \<open>
  C9. The verifier answers "matches" when reading the embedded date fails, and answers
  "matches" at once, leaving the world as it is, for a file whose extension does not
  support embedded dates; for such a file the writer returns normally too and leaves the
  world as it is.
\<close>

theorem verifier_defaults_to_match:
  "(doesFileSupportExif io (outputFilePath mediaFile)
      \<and> readPhotoTakenTimeFromGoogleJson io mediaFile w = (Inr (Some photoTakenTime), w1)
      \<and> exiftoolRead io (outputFilePath mediaFile) w1 = (Inl e, w2) \<longrightarrow>
    doesExifDateMatchPhotoTakenTime io mediaFile w = (Inr True, w2))
   \<and> (\<not> doesFileSupportExif io (outputFilePath mediaFile) \<longrightarrow>
        doesExifDateMatchPhotoTakenTime io mediaFile w = (Inr True, w)
        \<and> updateExifMetadata env io mediaFile timeTaken errorDir w = (Inr (), w))"
  by (simp add: doesExifDateMatchPhotoTakenTime_def compareExifDate_def updateExifMetadata_def)

theorem verifier_defaults_to_match_witness:
  "exiftoolRead (loggingTools True True True True False) ''/out/SNOW.mp4'' [] = (Inl ToolError, [])
   \<and> doesExifDateMatchPhotoTakenTime (loggingTools True True True True False) snowInfo []
       = (Inr True, [])
   \<and> doesExifDateMatchPhotoTakenTime (loggingTools False True True True True) snowInfo []
       = (Inr True, [])
   \<and> updateExifMetadata (posixNode ''/d'' True []) (loggingTools False True True True True)
       snowInfo ''2020-01-02T03:04:05.000Z'' ''/err'' []
       = (Inr (), [])"
proof -
  let ?bad = "loggingTools True True True True False"
  let ?un = "loggingTools False True True True True"
  let ?t = "''2020-01-02T03:04:05.000Z''"
  have r: "exiftoolRead ?bad ''/out/SNOW.mp4'' [] = (Inl ToolError, [])"
    by (simp add: loggingTools_def)
  have 1: "doesFileSupportExif ?bad (outputFilePath snowInfo)
      \<and> readPhotoTakenTimeFromGoogleJson ?bad snowInfo [] = (Inr (Some ?t), [])
      \<and> exiftoolRead ?bad (outputFilePath snowInfo) [] = (Inl ToolError, [])"
    by (simp add: loggingTools_def)
  have 2: "\<not> doesFileSupportExif ?un (outputFilePath snowInfo)"
    by (simp add: loggingTools_def)
  from verifier_defaults_to_match
    [where io = ?bad and mediaFile = snowInfo and w = "[]" and ?w1.0 = "[]" and ?w2.0 = "[]"
       and photoTakenTime = ?t and e = ToolError] 1
  have a: "doesExifDateMatchPhotoTakenTime ?bad snowInfo [] = (Inr True, [])"
    by blast
  from verifier_defaults_to_match
    [where io = ?un and mediaFile = snowInfo and w = "[]" and env = "posixNode ''/d'' True []"
       and timeTaken = ?t and errorDir = "''/err''"] 2
  have b: "doesExifDateMatchPhotoTakenTime ?un snowInfo [] = (Inr True, [])
      \<and> updateExifMetadata (posixNode ''/d'' True []) ?un snowInfo ?t ''/err'' [] = (Inr (), [])"
    by blast
  from r a b show ?thesis
    by (intro conjI) blast+
qed

end
